theory Spec2Isabelle
  imports Complex_Main
begin

section \<open>Values, rows and errors\<close>

text \<open>
  The monitor script (\<^verbatim>\<open>mactop_monitor.py\<close>) works on
  \<^verbatim>\<open>List[Dict[str, Union[float, str]]]\<close>: the rows that \<^verbatim>\<open>read_csv_data\<close>
  builds from a CSV file. A cell is a float or a string; \<^verbatim>\<open>find_peak_window\<close> also
  stores a \<^verbatim>\<open>datetime\<close> under the key \<^verbatim>\<open>timestamp_obj\<close>.

  Python floats are modelled as reals: rounding, infinities and NaN are not part of the
  model. A naive \<^verbatim>\<open>datetime\<close> is modelled as its count of microseconds on the
  time line (an integer), a \<^verbatim>\<open>timedelta\<close> as a difference of such counts.
\<close>

datatype cell = Num real | Str string | Dt int

type_synonym row = "string \<rightharpoonup> cell"

datatype py_error =
  ValueError | KeyError | TypeError | IndexError | ColumnNotFoundError | ComputeError
  | InvalidOperationError | ShapeError | SchemaError

definition ebind :: "py_error + 'a \<Rightarrow> ('a \<Rightarrow> py_error + 'b) \<Rightarrow> py_error + 'b" where
  "ebind m f = (case m of Inl e \<Rightarrow> Inl e | Inr x \<Rightarrow> f x)"

text \<open>
  \<^verbatim>\<open>float(x)\<close>: the identity on a float; on a string it is Python's parser, which
  the model takes as the parameter \<open>pf\<close> (\<open>None\<close> where Python raises
  \<^verbatim>\<open>ValueError\<close>); on a datetime it raises \<^verbatim>\<open>TypeError\<close>.
\<close>

fun py_float :: "(string \<Rightarrow> real option) \<Rightarrow> cell \<Rightarrow> py_error + real" where
  "py_float pf (Num r) = Inr r"
| "py_float pf (Str s) = (case pf s of None \<Rightarrow> Inl ValueError | Some r \<Rightarrow> Inr r)"
| "py_float pf (Dt t) = Inl TypeError"

text \<open>\<^verbatim>\<open>int(x)\<close> on a float truncates towards zero.\<close>

definition py_int :: "real \<Rightarrow> int" where
  "py_int x = (if 0 \<le> x then \<lfloor>x\<rfloor> else \<lceil>x\<rceil>)"

text \<open>
  List subscription \<^verbatim>\<open>xs[i]\<close>: positions \<open>0 .. n - 1\<close> read forwards, positions
  \<open>-n .. -1\<close> read backwards from the last element, anything else is an
  \<^verbatim>\<open>IndexError\<close>.
\<close>

definition py_index :: "'a list \<Rightarrow> int \<Rightarrow> py_error + 'a" where
  "py_index xs i =
     (if 0 \<le> i \<and> i < int (length xs) then Inr (xs ! nat i)
      else if i < 0 \<and> - int (length xs) \<le> i then Inr (xs ! nat (int (length xs) + i))
      else Inl IndexError)"

section \<open>Statistics engine (\<^verbatim>\<open>mactop_monitor.calculate_statistics\<close>)\<close>

record stats =
  min_value :: real
  max_value :: real
  mean :: real
  median :: real
  p75 :: real
  p95 :: real
  std_dev :: real
  variance :: real

definition zero_stats :: stats where
  "zero_stats = \<lparr>min_value = 0, max_value = 0, mean = 0, median = 0, p75 = 0, p95 = 0,
                  std_dev = 0, variance = 0\<rparr>"

text \<open>
  \<^verbatim>\<open>[float(row[metric]) for row in data if metric in row and row[metric] != ""]\<close>
\<close>

fun metric_values :: "(string \<Rightarrow> real option) \<Rightarrow> row list \<Rightarrow> string \<Rightarrow> py_error + real list" where
  "metric_values pf [] metric = Inr []"
| "metric_values pf (r # rest) metric =
     (case r metric of
        None \<Rightarrow> metric_values pf rest metric
      | Some c \<Rightarrow>
          if c = Str [] then metric_values pf rest metric
          else ebind (py_float pf c) (\<lambda>v.
               ebind (metric_values pf rest metric) (\<lambda>vs. Inr (v # vs))))"

text \<open>
  \<^verbatim>\<open>statistics.variance\<close> (sample variance, denominator \<open>n - 1\<close>) and
  \<^verbatim>\<open>statistics.stdev\<close> (its square root); both are only called with \<open>n > 1\<close>.
\<close>

definition py_variance :: "real list \<Rightarrow> real" where
  "py_variance xs =
     (let m = sum_list xs / real (length xs)
      in sum_list (map (\<lambda>x. (x - m)\<^sup>2) xs) / real (length xs - 1))"

definition py_stdev :: "real list \<Rightarrow> real" where
  "py_stdev xs = sqrt (py_variance xs)"

definition median_of :: "real list \<Rightarrow> py_error + real" where
  "median_of values =
     (let n = int (length values)
      in if n mod 2 = 1 then py_index values (n div 2)
         else ebind (py_index values (n div 2 - 1)) (\<lambda>a.
              ebind (py_index values (n div 2)) (\<lambda>b. Inr ((a + b) / 2))))"

definition calculate_statistics ::
  "(string \<Rightarrow> real option) \<Rightarrow> row list \<Rightarrow> string \<Rightarrow> py_error + stats" where
  "calculate_statistics pf data metric =
     ebind (metric_values pf data metric) (\<lambda>vals.
       if vals = [] then Inr zero_stats
       else
         let values = sort vals; n = length values in
         ebind (median_of values) (\<lambda>med.
         ebind (py_index values (py_int (real n * 0.75))) (\<lambda>q75.
         ebind (py_index values (py_int (real n * 0.95))) (\<lambda>q95.
           Inr \<lparr>min_value = Min (set values),
                max_value = Max (set values),
                mean = sum_list values / real n,
                median = med,
                p75 = q75,
                p95 = q95,
                std_dev = (if length values > 1 then py_stdev values else 0),
                variance = (if length values > 1 then py_variance values else 0)\<rparr>))))"

definition sample_rows :: "row list" where
  "sample_rows =
     [[''cpu'' \<mapsto> Num 30], [''cpu'' \<mapsto> Num 10], [''cpu'' \<mapsto> Num 50],
      [''cpu'' \<mapsto> Num 20], [''cpu'' \<mapsto> Num 40]]"

definition no_float :: "string \<Rightarrow> real option" where
  "no_float s = None"

section \<open>Sufficiency scorer (\<^verbatim>\<open>analyze.calculate_sufficiency_metrics\<close>)\<close>

text \<open>
  The argument is a \<^verbatim>\<open>Dict[str, Dict[str, float]]\<close>. The outer dictionary is given
  by its items in iteration order; the loop writes one entry of the result per metric
  that has the three statistics it needs and prints a warning for the others.
\<close>

fun sufficiency_loop ::
  "(string \<times> (string \<rightharpoonup> real)) list \<Rightarrow> (string \<rightharpoonup> real) \<Rightarrow> (string \<rightharpoonup> real)" where
  "sufficiency_loop [] sufficiency = sufficiency"
| "sufficiency_loop ((metric, metric_stats) # rest) sufficiency =
     (case (metric_stats ''p75'', metric_stats ''p95'', metric_stats ''max'') of
        (Some q75, Some q95, Some max_val) \<Rightarrow>
          if max_val = 0 then sufficiency_loop rest (sufficiency(metric \<mapsto> 0))
          else sufficiency_loop rest (sufficiency(metric \<mapsto> (q95 - q75) / max_val))
      | _ \<Rightarrow> sufficiency_loop rest sufficiency)"

definition calculate_sufficiency_metrics ::
  "(string \<times> (string \<rightharpoonup> real)) list \<Rightarrow> (string \<rightharpoonup> real)" where
  "calculate_sufficiency_metrics stats_items = sufficiency_loop stats_items Map.empty"

definition sample_stats :: "(string \<times> (string \<rightharpoonup> real)) list" where
  "sample_stats =
     [(''metric1'', [''p75'' \<mapsto> 75, ''p95'' \<mapsto> 95, ''max'' \<mapsto> 100]),
      (''metric2'', [''p75'' \<mapsto> 50, ''p95'' \<mapsto> 90, ''max'' \<mapsto> 100])]"

section \<open>Data frames (\<^verbatim>\<open>analyze.py\<close>)\<close>

text \<open>
  \<^verbatim>\<open>analyze.py\<close> works on data frames of the polars library, which is not part of
  the repository. A frame is modelled by its column names (in order), the dtype of each
  column and its rows; a cell is null, a number, a string or a datetime. A frame read
  from a CSV file gets the dtypes the reader infers from the cells of that file: a
  column of integers is \<^verbatim>\<open>Int64\<close>, a column with a decimal number is \<^verbatim>\<open>Float64\<close>,
  a column without any value (no row, or empty cells only) is \<^verbatim>\<open>String\<close>. The library
  operations the source calls are modelled from their documented behaviour: a
  comparison or an arithmetic operation with a null operand is null,
  \<^verbatim>\<open>when(c).then(a).otherwise(b)\<close> yields \<open>a\<close> where \<open>c\<close> is true and \<open>b\<close> where it
  is false or null, a column that does not exist raises, and an operation on a column
  of the wrong dtype raises.
\<close>

datatype pval = Null | Float real | Utf8 string | Datetime int

datatype dtype = DInt | DFloat | DStr | DTime

record frame =
  columns :: "string list"
  dtypes :: "string \<rightharpoonup> dtype"
  rows :: "(string \<rightharpoonup> pval) list"

definition is_number_type :: "dtype option \<Rightarrow> bool" where
  "is_number_type t \<longleftrightarrow> t = Some DInt \<or> t = Some DFloat"

fun map_err :: "('a \<Rightarrow> py_error + 'b) \<Rightarrow> 'a list \<Rightarrow> py_error + 'b list" where
  "map_err f [] = Inr []"
| "map_err f (x # xs) = ebind (f x) (\<lambda>y. ebind (map_err f xs) (\<lambda>ys. Inr (y # ys)))"

text \<open>\<^verbatim>\<open>pl.col(c)\<close> evaluated in one row.\<close>

definition col :: "string \<Rightarrow> (string \<rightharpoonup> pval) \<Rightarrow> py_error + pval" where
  "col c r = (case r c of None \<Rightarrow> Inl ColumnNotFoundError | Some v \<Rightarrow> Inr v)"

text \<open>\<^verbatim>\<open>e > 0\<close>: \<open>None\<close> is the null result.\<close>

fun gt_zero :: "pval \<Rightarrow> py_error + bool option" where
  "gt_zero Null = Inr None"
| "gt_zero (Float x) = Inr (Some (0 < x))"
| "gt_zero (Utf8 s) = Inl ComputeError"
| "gt_zero (Datetime t) = Inl ComputeError"

text \<open>\<^verbatim>\<open>a / b * 100.0\<close>\<close>

fun ratio_percent :: "pval \<Rightarrow> pval \<Rightarrow> py_error + pval" where
  "ratio_percent (Float a) (Float b) = Inr (Float (a / b * 100))"
| "ratio_percent (Float a) Null = Inr Null"
| "ratio_percent Null (Float b) = Inr Null"
| "ratio_percent Null Null = Inr Null"
| "ratio_percent _ _ = Inl ComputeError"

definition when_then_otherwise :: "bool option \<Rightarrow> pval \<Rightarrow> pval \<Rightarrow> pval" where
  "when_then_otherwise c a b = (if c = Some True then a else b)"

text \<open>
  \<^verbatim>\<open>df.with_columns(e.alias(name))\<close>: the expression is evaluated in every row and
  gives a column of dtype \<open>ty\<close>; the column is replaced when the name exists and
  appended otherwise. The result is a new frame.
\<close>

definition with_column ::
  "string \<Rightarrow> dtype \<Rightarrow> ((string \<rightharpoonup> pval) \<Rightarrow> py_error + pval) \<Rightarrow> frame \<Rightarrow> py_error + frame" where
  "with_column name ty e df =
     ebind (map_err (\<lambda>r. ebind (e r) (\<lambda>v. Inr (r(name \<mapsto> v)))) (rows df)) (\<lambda>rs.
       Inr \<lparr>columns = (if name \<in> set (columns df) then columns df else columns df @ [name]),
            dtypes = (dtypes df)(name \<mapsto> ty),
            rows = rs\<rparr>)"

section \<open>Derived-metric calculator (\<^verbatim>\<open>analyze.calculate_derived_metrics\<close>)\<close>

text \<open>
  \<^verbatim>\<open>pl.when(pl.col("memory_total") > 0)
      .then(pl.col(numerator) / pl.col("memory_total") * 100.0).otherwise(0.0)\<close>
  A frame without rows still needs its columns to exist and to be numeric: comparing or
  dividing a \<^verbatim>\<open>String\<close> column raises, also when the column holds no value.
\<close>

definition percent_of_total :: "string \<Rightarrow> (string \<rightharpoonup> pval) \<Rightarrow> py_error + pval" where
  "percent_of_total numerator r =
     ebind (col ''memory_total'' r) (\<lambda>denom.
     ebind (gt_zero denom) (\<lambda>c.
     ebind (col numerator r) (\<lambda>num.
     ebind (ratio_percent num denom) (\<lambda>q.
       Inr (when_then_otherwise c q (Float 0))))))"

definition derived_column :: "string \<Rightarrow> string \<Rightarrow> frame \<Rightarrow> py_error + frame" where
  "derived_column name numerator df =
     (if ''memory_total'' \<notin> set (columns df) \<or> numerator \<notin> set (columns df)
      then Inl ColumnNotFoundError
      else if \<not> is_number_type (dtypes df ''memory_total'') \<or> \<not> is_number_type (dtypes df numerator)
      then Inl InvalidOperationError
      else with_column name DFloat (percent_of_total numerator) df)"

definition calculate_derived_metrics :: "frame \<Rightarrow> py_error + frame" where
  "calculate_derived_metrics df =
     ebind (derived_column ''ram_percent'' ''memory_used'' df) (\<lambda>result_df.
       derived_column ''swap_pressure_percent'' ''memory_swap_used'' result_df)"

definition memory_row :: "real \<Rightarrow> real \<Rightarrow> real \<Rightarrow> (string \<rightharpoonup> pval)" where
  "memory_row mem_used mem_total swap_used =
     [''memory_used'' \<mapsto> Float mem_used, ''memory_total'' \<mapsto> Float mem_total,
      ''memory_swap_used'' \<mapsto> Float swap_used]"

definition memory_frame :: "(string \<rightharpoonup> pval) list \<Rightarrow> frame" where
  "memory_frame rs =
     \<lparr>columns = [''memory_used'', ''memory_total'', ''memory_swap_used''],
      dtypes = [''memory_used'' \<mapsto> DInt, ''memory_total'' \<mapsto> DInt, ''memory_swap_used'' \<mapsto> DInt],
      rows = rs\<rparr>"

text \<open>
  A frame as the CSV reader gives it for a file that holds the header and no row: every
  column is a \<^verbatim>\<open>String\<close> column.
\<close>

definition header_only_frame :: frame where
  "header_only_frame =
     \<lparr>columns = [''memory_used'', ''memory_total'', ''memory_swap_used''],
      dtypes = [''memory_used'' \<mapsto> DStr, ''memory_total'' \<mapsto> DStr, ''memory_swap_used'' \<mapsto> DStr],
      rows = []\<rparr>"

text \<open>
  The value the calculator is expected to write, by the kinds of the numerator and of
  \<^verbatim>\<open>memory_total\<close> (used to state the behaviour, not part of the source).
\<close>

fun spec_percent :: "pval option \<Rightarrow> pval option \<Rightarrow> pval" where
  "spec_percent (Some (Float u)) (Some (Float t)) = (if 0 < t then Float (u / t * 100) else Float 0)"
| "spec_percent (Some Null) (Some (Float t)) = (if 0 < t then Null else Float 0)"
| "spec_percent _ _ = Float 0"

fun is_numeric :: "pval option \<Rightarrow> bool" where
  "is_numeric (Some Null) = True"
| "is_numeric (Some (Float x)) = True"
| "is_numeric _ = False"

text \<open>
  A column of raw counters: it exists, its dtype is numeric and its cells are numbers or
  nulls.
\<close>

definition numeric_column :: "frame \<Rightarrow> string \<Rightarrow> bool" where
  "numeric_column df c \<longleftrightarrow>
     c \<in> set (columns df) \<and> is_number_type (dtypes df c) \<and> list_all (\<lambda>r. is_numeric (r c)) (rows df)"


section \<open>Loader (\<^verbatim>\<open>analyze.load_data\<close>) and the analysis entry point\<close>

text \<open>
  \<^verbatim>\<open>pl.concat(dfs)\<close> stacks frames vertically. The frames must agree on their
  columns and on the dtype of each column: a different number of columns raises
  \<^verbatim>\<open>ShapeError\<close>, different names or dtypes raise \<^verbatim>\<open>SchemaError\<close>. An empty list
  is refused.
\<close>

definition same_schema :: "frame \<Rightarrow> frame \<Rightarrow> bool" where
  "same_schema d d' \<longleftrightarrow>
     columns d' = columns d \<and> map (dtypes d') (columns d') = map (dtypes d) (columns d)"

definition pl_concat :: "frame list \<Rightarrow> py_error + frame" where
  "pl_concat dfs =
     (case dfs of
        [] \<Rightarrow> Inl ValueError
      | d # ds \<Rightarrow>
          if list_all (same_schema d) ds
          then Inr \<lparr>columns = columns d, dtypes = dtypes d, rows = concat (map rows dfs)\<rparr>
          else if list_all (\<lambda>d'. length (columns d') = length (columns d)) ds
          then Inl SchemaError
          else Inl ShapeError)"

text \<open>
  \<^verbatim>\<open>pl.col("timestamp").str.strptime(pl.Datetime, fmt)\<close> in strict mode, on a
  \<^verbatim>\<open>String\<close> column: a null stays null, a string that does not match the format
  raises. The parser for one format is the parameter \<open>strp\<close>.
\<close>

definition strptime_cell :: "(string \<Rightarrow> int option) \<Rightarrow> pval \<Rightarrow> py_error + pval" where
  "strptime_cell strp v =
     (case v of
        Null \<Rightarrow> Inr Null
      | Utf8 s \<Rightarrow> (case strp s of None \<Rightarrow> Inl ComputeError | Some t \<Rightarrow> Inr (Datetime t))
      | _ \<Rightarrow> Inl ComputeError)"

definition parse_timestamps :: "(string \<Rightarrow> int option) \<Rightarrow> frame \<Rightarrow> py_error + frame" where
  "parse_timestamps strp df =
     (if ''timestamp'' \<notin> set (columns df) then Inl ColumnNotFoundError
      else if dtypes df ''timestamp'' \<noteq> Some DStr then Inl InvalidOperationError
      else with_column ''timestamp'' DTime (\<lambda>r. ebind (col ''timestamp'' r) (strptime_cell strp)) df)"

text \<open>
  \<^verbatim>\<open>load_data(file_paths)\<close>. Reading one CSV file (\<^verbatim>\<open>pl.scan_csv(p).collect()\<close>) is
  the parameter \<open>scan_csv\<close>, \<open>None\<close> where reading raises: the loop then prints a
  message and goes on. Both \<^verbatim>\<open>raise ValueError(...)\<close> statements of the source are the
  value \<open>Inl ValueError\<close>. \<open>strp_plain\<close> parses \<^verbatim>\<open>%Y-%m-%d %H:%M:%S\<close>,
  \<open>strp_iso\<close> parses \<^verbatim>\<open>%Y-%m-%dT%H:%M:%S.%f\<close>.

  The fallback after both formats failed builds the expression
  \<^verbatim>\<open>pl.col("timestamp").str.replace("T", " ").str.split(".", n=1)\<close>; \<^verbatim>\<open>split\<close>
  takes no argument \<^verbatim>\<open>n\<close>, so building the expression raises \<^verbatim>\<open>TypeError\<close> and the
  fallback never succeeds.
\<close>

definition load_data ::
  "('p \<Rightarrow> frame option) \<Rightarrow> (string \<Rightarrow> int option) \<Rightarrow> (string \<Rightarrow> int option) \<Rightarrow> 'p list
     \<Rightarrow> py_error + frame" where
  "load_data scan_csv strp_plain strp_iso file_paths =
     (if file_paths = [] then Inl ValueError
      else
        let dfs = List.map_filter scan_csv file_paths in
        if dfs = [] then Inl ValueError
        else
          ebind (pl_concat dfs) (\<lambda>combined_df.
            case parse_timestamps strp_plain combined_df of
              Inr df \<Rightarrow> Inr df
            | Inl e1 \<Rightarrow>
                (case parse_timestamps strp_iso combined_df of
                   Inr df \<Rightarrow> Inr df
                 | Inl e2 \<Rightarrow> Inl TypeError)))"

text \<open>
  \<^verbatim>\<open>analyze.calculate_statistics(df, metrics)\<close>: one record per metric that is a column
  of the frame; a metric that is not a column is skipped with a warning. The aggregates
  of a polars series (\<^verbatim>\<open>min\<close>, \<^verbatim>\<open>max\<close>, \<^verbatim>\<open>mean\<close>, \<^verbatim>\<open>median\<close>, \<^verbatim>\<open>quantile\<close>,
  \<^verbatim>\<open>std\<close>) are library code: the parameter \<open>agg\<close> maps the name of a statistic and
  the cells of a column to the value, \<open>None\<close> for Python's \<^verbatim>\<open>None\<close>.
\<close>

definition series :: "frame \<Rightarrow> string \<Rightarrow> pval list" where
  "series df c = map (\<lambda>r. case r c of None \<Rightarrow> Null | Some v \<Rightarrow> v) (rows df)"

definition metric_stats :: "(string \<Rightarrow> pval list \<Rightarrow> real option) \<Rightarrow> frame \<Rightarrow> string \<Rightarrow> (string \<rightharpoonup> real option)" where
  "metric_stats agg df metric =
     map_of (map (\<lambda>k. (k, agg k (series df metric)))
       [''min'', ''max'', ''mean'', ''median'', ''p50'', ''p75'', ''p95'', ''std''])"

fun statistics_loop ::
  "(string \<Rightarrow> pval list \<Rightarrow> real option) \<Rightarrow> frame \<Rightarrow> string list
     \<Rightarrow> (string \<rightharpoonup> (string \<rightharpoonup> real option)) \<Rightarrow> (string \<rightharpoonup> (string \<rightharpoonup> real option))" where
  "statistics_loop agg df [] stats = stats"
| "statistics_loop agg df (metric # metrics) stats =
     (if metric \<notin> set (columns df) then statistics_loop agg df metrics stats
      else statistics_loop agg df metrics (stats(metric \<mapsto> metric_stats agg df metric)))"

definition calculate_statistics_frame ::
  "(string \<Rightarrow> pval list \<Rightarrow> real option) \<Rightarrow> frame \<Rightarrow> string list
     \<Rightarrow> (string \<rightharpoonup> (string \<rightharpoonup> real option))" where
  "calculate_statistics_frame agg df metrics = statistics_loop agg df metrics Map.empty"

text \<open>
  \<^verbatim>\<open>analyze.prepare_heatmap_data(df, metric)\<close>. The accessors
  \<^verbatim>\<open>dt.weekday()\<close> and \<^verbatim>\<open>dt.hour()\<close> of a datetime are the parameter
  \<open>day_hour\<close>; they need a datetime column, and a null timestamp has a null day and a
  null hour. \<^verbatim>\<open>with_columns\<close> evaluates both expressions in every row of the frame
  it is called on and returns a new frame with the two columns.
\<close>

definition weekday_hour :: "(int \<Rightarrow> int \<times> int) \<Rightarrow> pval \<Rightarrow> py_error + pval \<times> pval" where
  "weekday_hour day_hour v =
     (case v of
        Null \<Rightarrow> Inr (Null, Null)
      | Datetime t \<Rightarrow> Inr (Float (real_of_int (fst (day_hour t))), Float (real_of_int (snd (day_hour t))))
      | _ \<Rightarrow> Inl InvalidOperationError)"

definition with_time_columns :: "(int \<Rightarrow> int \<times> int) \<Rightarrow> frame \<Rightarrow> py_error + frame" where
  "with_time_columns day_hour df =
     (if dtypes df ''timestamp'' \<noteq> Some DTime then Inl InvalidOperationError
      else
        ebind (map_err (\<lambda>r. ebind (col ''timestamp'' r) (\<lambda>v.
                             ebind (weekday_hour day_hour v) (\<lambda>dh.
                               Inr (r(''day_of_week'' \<mapsto> fst dh, ''hour'' \<mapsto> snd dh))))) (rows df)) (\<lambda>rs.
          Inr \<lparr>columns = columns df @ filter (\<lambda>c. c \<notin> set (columns df)) [''day_of_week'', ''hour''],
               dtypes = (dtypes df)(''day_of_week'' \<mapsto> DInt, ''hour'' \<mapsto> DInt),
               rows = rs\<rparr>))"

text \<open>
  \<^verbatim>\<open>group_by(["day_of_week", "hour"]).agg(pl.col(metric).mean())\<close> and the dictionary
  built from it: one entry per pair (day, hour) that occurs, holding the mean of the
  metric's cells in the rows of that pair. The aggregation \<^verbatim>\<open>mean()\<close> is the
  parameter \<open>mean_agg\<close>.
\<close>

definition cell_of :: "(string \<rightharpoonup> pval) \<Rightarrow> string \<Rightarrow> pval" where
  "cell_of r c = (case r c of None \<Rightarrow> Null | Some v \<Rightarrow> v)"

definition group_key :: "(string \<rightharpoonup> pval) \<Rightarrow> pval \<times> pval" where
  "group_key r = (cell_of r ''day_of_week'', cell_of r ''hour'')"

definition group_mean ::
  "(pval list \<Rightarrow> real option) \<Rightarrow> string \<Rightarrow> (string \<rightharpoonup> pval) list \<Rightarrow> (pval \<times> pval \<rightharpoonup> real option)" where
  "group_mean mean_agg metric rs =
     (\<lambda>k. if k \<in> group_key ` set rs
          then Some (mean_agg (map (\<lambda>r. cell_of r metric) (filter (\<lambda>r. group_key r = k) rs)))
          else None)"

definition prepare_heatmap_data ::
  "(int \<Rightarrow> int \<times> int) \<Rightarrow> (pval list \<Rightarrow> real option) \<Rightarrow> frame \<Rightarrow> string
     \<Rightarrow> py_error + (pval \<times> pval \<rightharpoonup> real option)" where
  "prepare_heatmap_data day_hour mean_agg df metric =
     (if ''timestamp'' \<notin> set (columns df) \<or> metric \<notin> set (columns df) then Inr Map.empty
      else
        ebind (with_time_columns day_hour df) (\<lambda>df_with_time.
          Inr (group_mean mean_agg metric (rows df_with_time))))"

text \<open>
  \<^verbatim>\<open>run_analysis\<close>. \<open>csv_files\<close> is what \<^verbatim>\<open>find_csv_files\<close> found in the data
  directory (a listing of the file system). The stages after the derived metrics
  (statistics, heat maps, sufficiency scores and the summary, all built from polars
  aggregations) are the parameter \<open>summarise\<close>. The function has no
  \<^verbatim>\<open>try\<close>: an exception of a stage leaves it.
\<close>

datatype 'r analysis = ErrorResult string | Results 'r

definition run_analysis ::
  "'p list \<Rightarrow> ('p \<Rightarrow> frame option) \<Rightarrow> (string \<Rightarrow> int option) \<Rightarrow> (string \<Rightarrow> int option)
     \<Rightarrow> (frame \<Rightarrow> py_error + 'r) \<Rightarrow> py_error + 'r analysis" where
  "run_analysis csv_files scan_csv strp_plain strp_iso summarise =
     (if csv_files = []
      then Inr (ErrorResult ''No data files found for the specified date range.'')
      else
        ebind (load_data scan_csv strp_plain strp_iso csv_files) (\<lambda>df.
        ebind (calculate_derived_metrics df) (\<lambda>df'.
        ebind (summarise df') (\<lambda>r. Inr (Results r)))))"

definition unreadable :: "string \<Rightarrow> frame option" where
  "unreadable p = None"

definition no_time :: "string \<Rightarrow> int option" where
  "no_time s = None"









section \<open>Peak-window finder (\<^verbatim>\<open>mactop_monitor.find_peak_window\<close>)\<close>

text \<open>
  The first loop of the function parses the timestamps and stores each one in its row,
  under the key \<^verbatim>\<open>timestamp_obj\<close>: the rows of the caller are changed. The loop
  stops at the first row without a \<^verbatim>\<open>timestamp\<close> (\<^verbatim>\<open>KeyError\<close>) or with a string
  that does not parse (\<^verbatim>\<open>ValueError\<close>); both are caught and the function returns
  \<^verbatim>\<open>(0, 0.0)\<close>, the rows before that one staying changed.
  \<^verbatim>\<open>datetime.fromisoformat\<close> is the parameter \<open>fromiso\<close>. The result of
  \<open>stamp_rows\<close> is the rows after the loop and whether the loop completed.
\<close>

fun stamp_rows :: "(string \<Rightarrow> int option) \<Rightarrow> row list \<Rightarrow> row list \<times> bool" where
  "stamp_rows fromiso [] = ([], True)"
| "stamp_rows fromiso (item # rest) =
     (case item ''timestamp'' of
        None \<Rightarrow> (item # rest, False)
      | Some (Str s) \<Rightarrow>
          (case fromiso s of
             None \<Rightarrow> (item # rest, False)
           | Some t \<Rightarrow>
               (case stamp_rows fromiso rest of
                  (rest', ok) \<Rightarrow> (item(''timestamp_obj'' \<mapsto> Dt t) # rest', ok)))
      | Some c \<Rightarrow> (case stamp_rows fromiso rest of (rest', ok) \<Rightarrow> (item # rest', ok)))"

text \<open>
  \<^verbatim>\<open>item["timestamp_obj"]\<close> where a datetime is needed. A row without the key raises
  \<^verbatim>\<open>KeyError\<close>; a value that is not a datetime makes a later comparison or the
  subtraction raise, which the model reports as \<^verbatim>\<open>TypeError\<close> at that row.
\<close>

definition timestamp_obj :: "row \<Rightarrow> py_error + int" where
  "timestamp_obj item =
     (case item ''timestamp_obj'' of
        None \<Rightarrow> Inl KeyError
      | Some (Dt t) \<Rightarrow> Inr t
      | Some c \<Rightarrow> Inl TypeError)"

text \<open>
  The inner loop: \<^verbatim>\<open>for j in range(i, len(data))\<close>, over the rows from the start
  row on, until a timestamp lies after the end of the window.
\<close>

fun scan_window ::
  "(string \<Rightarrow> real option) \<Rightarrow> string \<Rightarrow> int \<Rightarrow> row list \<Rightarrow> real list \<Rightarrow> py_error + real list" where
  "scan_window pf metric window_end [] window_values = Inr window_values"
| "scan_window pf metric window_end (item # rest) window_values =
     ebind (timestamp_obj item) (\<lambda>t.
       if t > window_end then Inr window_values
       else
         (case item metric of
            None \<Rightarrow> scan_window pf metric window_end rest window_values
          | Some c \<Rightarrow>
              if c = Str [] then scan_window pf metric window_end rest window_values
              else ebind (py_float pf c) (\<lambda>v.
                     scan_window pf metric window_end rest (window_values @ [v]))))"

text \<open>
  The outer loop: \<^verbatim>\<open>for i in range(len(data) - 1)\<close>. The list argument is
  \<^verbatim>\<open>data[i:]\<close>; the last row is never a start. \<open>width\<close> is the
  \<^verbatim>\<open>timedelta\<close> of the window in microseconds.
\<close>

fun peak_loop ::
  "(string \<Rightarrow> real option) \<Rightarrow> string \<Rightarrow> int \<Rightarrow> row list \<Rightarrow> nat \<Rightarrow> real \<Rightarrow> nat
     \<Rightarrow> py_error + nat \<times> real" where
  "peak_loop pf metric width [] i highest_avg best_start_idx = Inr (best_start_idx, highest_avg)"
| "peak_loop pf metric width [item] i highest_avg best_start_idx = Inr (best_start_idx, highest_avg)"
| "peak_loop pf metric width (item # next_item # rest) i highest_avg best_start_idx =
     ebind (timestamp_obj item) (\<lambda>window_start.
     ebind (scan_window pf metric (window_start + width) (item # next_item # rest) []) (\<lambda>window_values.
       if window_values \<noteq> []
          \<and> sum_list window_values / real (length window_values) > highest_avg
       then peak_loop pf metric width (next_item # rest) (Suc i)
              (sum_list window_values / real (length window_values)) i
       else peak_loop pf metric width (next_item # rest) (Suc i) highest_avg best_start_idx))"

text \<open>
  The function returns its result (or raises) and leaves the rows changed: the second
  component is \<^verbatim>\<open>data\<close> after the call.
\<close>

definition find_peak_window ::
  "(string \<Rightarrow> real option) \<Rightarrow> (string \<Rightarrow> int option) \<Rightarrow> row list \<Rightarrow> string \<Rightarrow> int
     \<Rightarrow> (py_error + nat \<times> real) \<times> row list" where
  "find_peak_window pf fromiso data metric window_minutes =
     (if length data < 2 then (Inr (0, 0), data)
      else
        (case stamp_rows fromiso data of
           (data', ok) \<Rightarrow>
             if \<not> ok then (Inr (0, 0), data')
             else
               (ebind (map_err timestamp_obj data') (\<lambda>ts.
                  let start_time = Min (set ts); end_time = Max (set ts) in
                  if real_of_int (end_time - start_time) / 1000000 < real_of_int (window_minutes * 60)
                  then
                    ebind (metric_values pf data' metric) (\<lambda>values.
                      Inr (0, if values \<noteq> [] then sum_list values / real (length values) else 0))
                  else peak_loop pf metric (window_minutes * 60 * 1000000) data' 0 0 0),
                data')))"

text \<open>
  A series as the claims speak of it: the timestamp and the value (if any) of each row.
  These definitions state the behaviour; they are not part of the source.
\<close>

definition sample_of :: "(string \<Rightarrow> int option) \<Rightarrow> string \<Rightarrow> row \<Rightarrow> int \<times> real option" where
  "sample_of fromiso metric r =
     ((case r ''timestamp'' of
         Some (Str s) \<Rightarrow> (case fromiso s of Some t \<Rightarrow> t | None \<Rightarrow> 0)
       | _ \<Rightarrow> 0),
      (case r metric of Some (Num v) \<Rightarrow> Some v | _ \<Rightarrow> None))"

definition mean_opt :: "real list \<Rightarrow> real option" where
  "mean_opt vs = (if vs = [] then None else Some (sum_list vs / real (length vs)))"

text \<open>
  The mean of the window that starts at the first sample of \<open>ps\<close>: the values whose
  timestamps are at most \<open>width\<close> after the first one.
\<close>

definition window_mean :: "int \<Rightarrow> (int \<times> real option) list \<Rightarrow> real option" where
  "window_mean width ps =
     (case ps of
        [] \<Rightarrow> None
      | p # rest \<Rightarrow> mean_opt (List.map_filter snd (filter (\<lambda>q. fst q \<le> fst p + width) ps)))"

definition well_formed_row :: "(string \<Rightarrow> int option) \<Rightarrow> string \<Rightarrow> row \<Rightarrow> bool" where
  "well_formed_row fromiso metric r =
     ((case r ''timestamp'' of Some (Str s) \<Rightarrow> fromiso s \<noteq> None | _ \<Rightarrow> False)
      \<and> (case r metric of None \<Rightarrow> True | Some (Num v) \<Rightarrow> True | Some (Str s) \<Rightarrow> s = [] | Some (Dt t) \<Rightarrow> False))"

definition sample_iso :: "string \<Rightarrow> int option" where
  "sample_iso s =
     (if s = ''2024-01-01T00:00:00'' then Some 0
      else if s = ''2024-01-01T00:20:00'' then Some 1200000000
      else if s = ''2024-01-01T00:40:00'' then Some 2400000000
      else None)"

definition cpu_row :: "string \<Rightarrow> real \<Rightarrow> row" where
  "cpu_row t v = [''timestamp'' \<mapsto> Str t, ''cpu'' \<mapsto> Num v]"

definition late_peak_rows :: "row list" where
  "late_peak_rows =
     [cpu_row ''2024-01-01T00:00:00'' 1, cpu_row ''2024-01-01T00:20:00'' 1,
      cpu_row ''2024-01-01T00:40:00'' 100]"

text \<open>Three rows, the second with a timestamp that does not parse.\<close>

definition broken_rows :: "row list" where
  "broken_rows =
     [cpu_row ''2024-01-01T00:00:00'' 1, cpu_row ''yesterday'' 2,
      cpu_row ''2024-01-01T00:40:00'' 3]"

text \<open>
  A row after the first loop of \<^verbatim>\<open>find_peak_window\<close>, when its timestamp parses.
\<close>

definition stamped :: "(string \<Rightarrow> int option) \<Rightarrow> string \<Rightarrow> row \<Rightarrow> row" where
  "stamped fromiso metric r = r(''timestamp_obj'' \<mapsto> Dt (fst (sample_of fromiso metric r)))"

section \<open>Exposition-format parser (\<^verbatim>\<open>mactop_monitor.parse_metrics\<close>)\<close>























section \<open>What an operation leaves of its argument\<close>

text \<open>
  \<^verbatim>\<open>find_peak_window\<close> above returns the rows as they are after the call. The other
  operations are paired here with their argument as it is after the call.

  \<^verbatim>\<open>mactop_monitor.calculate_statistics\<close> has two variables that hold lists: its
  argument \<^verbatim>\<open>data\<close> and the local \<^verbatim>\<open>values\<close>, which the comprehension creates
  and \<^verbatim>\<open>values.sort()\<close> sorts in place. The model keeps both in an environment and
  follows the statements of the source.
\<close>

record stat_env =
  env_data :: "row list"
  env_values :: "real list"

definition calculate_statistics_env ::
  "(string \<Rightarrow> real option) \<Rightarrow> string \<Rightarrow> stat_env \<Rightarrow> (py_error + stats) \<times> stat_env" where
  "calculate_statistics_env pf metric e =
     (case metric_values pf (env_data e) metric of
        Inl err \<Rightarrow> (Inl err, e)
      | Inr vals \<Rightarrow>
          (let e1 = e\<lparr>env_values := vals\<rparr> in
           if env_values e1 = [] then (Inr zero_stats, e1)
           else
             (let e2 = e1\<lparr>env_values := sort (env_values e1)\<rparr>;
                  n = length (env_values e2)
              in (ebind (median_of (env_values e2)) (\<lambda>med.
                  ebind (py_index (env_values e2) (py_int (real n * 0.75))) (\<lambda>q75.
                  ebind (py_index (env_values e2) (py_int (real n * 0.95))) (\<lambda>q95.
                    Inr \<lparr>min_value = Min (set (env_values e2)),
                         max_value = Max (set (env_values e2)),
                         mean = sum_list (env_values e2) / real n,
                         median = med,
                         p75 = q75,
                         p95 = q95,
                         std_dev = (if length (env_values e2) > 1 then py_stdev (env_values e2) else 0),
                         variance = (if length (env_values e2) > 1 then py_variance (env_values e2) else 0)\<rparr>))),
                  e2))))"

definition calculate_statistics_effect ::
  "(string \<Rightarrow> real option) \<Rightarrow> row list \<Rightarrow> string \<Rightarrow> (py_error + stats) \<times> row list" where
  "calculate_statistics_effect pf data metric =
     (case calculate_statistics_env pf metric \<lparr>env_data = data, env_values = []\<rparr> of
        (result, e) \<Rightarrow> (result, env_data e))"

text \<open>
  \<^verbatim>\<open>calculate_sufficiency_metrics\<close> has two dictionaries: its argument
  \<^verbatim>\<open>stats\<close>, which it reads, and \<^verbatim>\<open>sufficiency\<close>, which it creates and
  writes to.
\<close>

record score_env =
  env_stats :: "(string \<times> (string \<rightharpoonup> real)) list"
  env_sufficiency :: "string \<rightharpoonup> real"

fun sufficiency_steps :: "(string \<times> (string \<rightharpoonup> real)) list \<Rightarrow> score_env \<Rightarrow> score_env" where
  "sufficiency_steps [] e = e"
| "sufficiency_steps ((metric, stats_of_metric) # rest) e =
     (case (stats_of_metric ''p75'', stats_of_metric ''p95'', stats_of_metric ''max'') of
        (Some q75, Some q95, Some max_val) \<Rightarrow>
          if max_val = 0
          then sufficiency_steps rest (e\<lparr>env_sufficiency := (env_sufficiency e)(metric \<mapsto> 0)\<rparr>)
          else sufficiency_steps rest
                 (e\<lparr>env_sufficiency := (env_sufficiency e)(metric \<mapsto> (q95 - q75) / max_val)\<rparr>)
      | _ \<Rightarrow> sufficiency_steps rest e)"

definition calculate_sufficiency_effect ::
  "(string \<times> (string \<rightharpoonup> real)) list
     \<Rightarrow> (string \<rightharpoonup> real) \<times> (string \<times> (string \<rightharpoonup> real)) list" where
  "calculate_sufficiency_effect stats_items =
     (let e = sufficiency_steps stats_items \<lparr>env_stats = stats_items, env_sufficiency = Map.empty\<rparr>
      in (env_sufficiency e, env_stats e))"

text \<open>
  \<^verbatim>\<open>calculate_derived_metrics\<close> has two variables that hold frames: its argument
  \<^verbatim>\<open>df\<close> and \<^verbatim>\<open>result_df\<close>, first bound to \<^verbatim>\<open>df.clone()\<close> and then to
  the new frame each \<^verbatim>\<open>with_columns\<close> returns.
\<close>

record derive_env =
  env_df :: frame
  env_result_df :: frame

definition calculate_derived_env :: "derive_env \<Rightarrow> (py_error + frame) \<times> derive_env" where
  "calculate_derived_env e =
     (let e1 = e\<lparr>env_result_df := env_df e\<rparr> in
      case derived_column ''ram_percent'' ''memory_used'' (env_result_df e1) of
        Inl err \<Rightarrow> (Inl err, e1)
      | Inr with_ram \<Rightarrow>
          (let e2 = e1\<lparr>env_result_df := with_ram\<rparr> in
           case derived_column ''swap_pressure_percent'' ''memory_swap_used'' (env_result_df e2) of
             Inl err \<Rightarrow> (Inl err, e2)
           | Inr with_swap \<Rightarrow>
               (let e3 = e2\<lparr>env_result_df := with_swap\<rparr> in (Inr (env_result_df e3), e3))))"

definition calculate_derived_effect :: "frame \<Rightarrow> (py_error + frame) \<times> frame" where
  "calculate_derived_effect df =
     (case calculate_derived_env \<lparr>env_df = df, env_result_df = df\<rparr> of
        (result, e) \<Rightarrow> (result, env_df e))"

text \<open>
  \<^verbatim>\<open>prepare_heatmap_data\<close> has its argument \<^verbatim>\<open>df\<close>, the frame
  \<^verbatim>\<open>df_with_time\<close> that \<^verbatim>\<open>with_columns\<close> returns and the aggregation
  \<^verbatim>\<open>grouped\<close>, from which it builds the dictionary it returns.
\<close>

record heat_env =
  env_frame :: frame
  env_df_with_time :: frame
  env_grouped :: "pval \<times> pval \<rightharpoonup> real option"

definition prepare_heatmap_env ::
  "(int \<Rightarrow> int \<times> int) \<Rightarrow> (pval list \<Rightarrow> real option) \<Rightarrow> string \<Rightarrow> heat_env
     \<Rightarrow> (py_error + (pval \<times> pval \<rightharpoonup> real option)) \<times> heat_env" where
  "prepare_heatmap_env day_hour mean_agg metric e =
     (if ''timestamp'' \<notin> set (columns (env_frame e)) \<or> metric \<notin> set (columns (env_frame e))
      then (Inr Map.empty, e)
      else
        (case with_time_columns day_hour (env_frame e) of
           Inl err \<Rightarrow> (Inl err, e)
         | Inr with_time \<Rightarrow>
             (let e1 = e\<lparr>env_df_with_time := with_time\<rparr>;
                  e2 = e1\<lparr>env_grouped := group_mean mean_agg metric (rows (env_df_with_time e1))\<rparr>
              in (Inr (env_grouped e2), e2))))"

definition prepare_heatmap_effect ::
  "(int \<Rightarrow> int \<times> int) \<Rightarrow> (pval list \<Rightarrow> real option) \<Rightarrow> frame \<Rightarrow> string
     \<Rightarrow> (py_error + (pval \<times> pval \<rightharpoonup> real option)) \<times> frame" where
  "prepare_heatmap_effect day_hour mean_agg df metric =
     (case prepare_heatmap_env day_hour mean_agg metric
             \<lparr>env_frame = df, env_df_with_time = df, env_grouped = Map.empty\<rparr> of
        (result, e) \<Rightarrow> (result, env_frame e))"

text \<open>
  What the first loop of \<^verbatim>\<open>find_peak_window\<close> does to one row, and whether it goes on
  to the next row (used to state the behaviour, not part of the source): a row whose
  timestamp is a string that parses gets the key \<^verbatim>\<open>timestamp_obj\<close>; a row whose
  timestamp is not a string is passed over; a row without timestamp, or with a string
  that does not parse, ends the loop.
\<close>

definition stamp_row :: "(string \<Rightarrow> int option) \<Rightarrow> row \<Rightarrow> row" where
  "stamp_row fromiso r =
     (case r ''timestamp'' of
        Some (Str s) \<Rightarrow> (case fromiso s of Some t \<Rightarrow> r(''timestamp_obj'' \<mapsto> Dt t) | None \<Rightarrow> r)
      | _ \<Rightarrow> r)"

definition loop_continues :: "(string \<Rightarrow> int option) \<Rightarrow> row \<Rightarrow> bool" where
  "loop_continues fromiso r =
     (case r ''timestamp'' of
        None \<Rightarrow> False
      | Some (Str s) \<Rightarrow> fromiso s \<noteq> None
      | Some c \<Rightarrow> True)"

section \<open>Basic facts\<close>

lemma ebind_Inl: "ebind (Inl e) f = Inl e"
  by (simp add: ebind_def)

lemma ebind_Inr: "ebind (Inr x) f = f x"
  by (simp add: ebind_def)

lemma py_int_scaled:
  "py_int (real n * 0.75) = int ((3 * n) div 4)"
  "py_int (real n * 0.95) = int ((19 * n) div 20)"
proof -
  have "real n * 0.75 = real (3 * n) / real 4" by simp
  then have "\<lfloor>real n * 0.75\<rfloor> = int ((3 * n) div 4)"
    by (simp only: floor_divide_of_nat_eq)
  then show "py_int (real n * 0.75) = int ((3 * n) div 4)"
    by (simp add: py_int_def)
  have "real n * 0.95 = real (19 * n) / real 20" by simp
  then have "\<lfloor>real n * 0.95\<rfloor> = int ((19 * n) div 20)"
    by (simp only: floor_divide_of_nat_eq)
  then show "py_int (real n * 0.95) = int ((19 * n) div 20)"
    by (simp add: py_int_def)
qed

lemma rank_in_range:
  "0 < (n::nat) \<Longrightarrow> (3 * n) div 4 < n"
  "0 < (n::nat) \<Longrightarrow> (19 * n) div 20 < n"
  by (simp_all add: div_less_iff_less_mult)

lemma rank_half_le: "(n::nat) div 2 \<le> (3 * n) div 4"
  by (rule order_trans [OF _ div_le_mono [of "2 * n" "3 * n" 4]]) simp_all

lemma rank_mono: "(3 * (n::nat)) div 4 \<le> (19 * n) div 20"
proof -
  have "(3 * n) div 4 = (15 * n) div 20"
    using div_mult_mult1 [of 5 "3 * n" 4] by simp
  also have "\<dots> \<le> (19 * n) div 20" by (rule div_le_mono) simp
  finally show ?thesis .
qed

lemma py_index_nat: "k < length xs \<Longrightarrow> py_index xs (int k) = Inr (xs ! k)"
  by (simp add: py_index_def)

lemma median_of_nonempty:
  assumes "xs \<noteq> []"
  shows "median_of xs =
           Inr (if odd (length xs) then xs ! (length xs div 2)
                else (xs ! (length xs div 2 - 1) + xs ! (length xs div 2)) / 2)"
proof -
  have d: "int (length xs) div 2 = int (length xs div 2)" by simp
  have h: "length xs div 2 < length xs" using assms by simp
  have b: "py_index xs (int (length xs) div 2) = Inr (xs ! (length xs div 2))"
    using h by (simp only: d py_index_nat)
  show ?thesis
  proof (cases "odd (length xs)")
    case True
    then have m: "int (length xs) mod 2 = 1"
      by presburger
    show ?thesis
      unfolding median_of_def Let_def b using True m by simp
  next
    case False
    then have m: "int (length xs) mod 2 \<noteq> 1"
      by presburger
    from False assms have "1 \<le> length xs div 2"
      by (cases xs) auto
    then have d1: "int (length xs) div 2 - 1 = int (length xs div 2 - 1)"
      by (simp only: d of_nat_diff of_nat_1)
    have "length xs div 2 - 1 < length xs"
      using h by simp
    then have a: "py_index xs (int (length xs) div 2 - 1) = Inr (xs ! (length xs div 2 - 1))"
      by (simp only: d1 py_index_nat)
    show ?thesis
      unfolding median_of_def Let_def a b ebind_Inr using False m by simp
  qed
qed

lemma calculate_statistics_nonempty:
  assumes "metric_values pf data metric = Inr vs" and "vs \<noteq> []"
  shows "calculate_statistics pf data metric =
           Inr \<lparr>min_value = Min (set vs),
                max_value = Max (set vs),
                mean = sum_list (sort vs) / real (length vs),
                median = (if odd (length vs) then sort vs ! (length vs div 2)
                          else (sort vs ! (length vs div 2 - 1) + sort vs ! (length vs div 2)) / 2),
                p75 = sort vs ! ((3 * length vs) div 4),
                p95 = sort vs ! ((19 * length vs) div 20),
                std_dev = (if length vs > 1 then py_stdev (sort vs) else 0),
                variance = (if length vs > 1 then py_variance (sort vs) else 0)\<rparr>"
proof -
  have ne: "sort vs \<noteq> []" using assms(2) by (metis length_sort length_0_conv)
  have i75: "(3 * length vs) div 4 < length (sort vs)"
    using assms(2) by (cases vs) auto
  have i95: "(19 * length vs) div 20 < length (sort vs)"
    using assms(2) by (cases vs) auto
  have e75: "py_index (sort vs) (py_int (real (length (sort vs)) * 0.75))
               = Inr (sort vs ! ((3 * length vs) div 4))"
    using i75 by (simp only: py_int_scaled length_sort py_index_nat)
  have e95: "py_index (sort vs) (py_int (real (length (sort vs)) * 0.95))
               = Inr (sort vs ! ((19 * length vs) div 20))"
    using i95 by (simp only: py_int_scaled length_sort py_index_nat)
  show ?thesis
    unfolding calculate_statistics_def assms(1) ebind_Inr Let_def e75 e95
      median_of_nonempty [OF ne]
    using assms(2) by simp
qed

lemma metric_values_all_missing:
  "\<forall>r \<in> set data. r metric = None \<or> r metric = Some (Str []) \<Longrightarrow>
     metric_values pf data metric = Inr []"
  by (induction data) auto

lemma sort_nth_mem: "k < length vs \<Longrightarrow> sort vs ! k \<in> set vs"
  by (metis length_sort nth_mem set_sort)

lemma sort_nth_mono: "i \<le> j \<Longrightarrow> j < length vs \<Longrightarrow> sort vs ! i \<le> (sort vs ! j :: real)"
  by (metis length_sort sorted_nth_mono sorted_sort)

section \<open>Claims about the statistics engine\<close>

text \<open>
  C1. For every non-empty value series the engine computes the percentiles by the
  nearest-rank formula: the values are sorted ascending and \<open>p_k\<close> is the element at
  the 0-indexed position \<open>floor (n * k)\<close> (which is always in range, so no index error
  occurs); the median is the middle element for odd \<open>n\<close> and the average of the two
  middle elements for even \<open>n\<close>. For the sorted values 10, 20, 30, 40, 50 this gives
  \<open>p75 = 40\<close>, \<open>p95 = 50\<close> and \<open>median = 30\<close>.
\<close>

theorem percentile_nearest_rank:
  assumes "metric_values pf data metric = Inr vs" and "vs \<noteq> []"
  shows "\<exists>st. calculate_statistics pf data metric = Inr st
           \<and> nat \<lfloor>real (length vs) * 0.75\<rfloor> < length vs
           \<and> p75 st = sort vs ! nat \<lfloor>real (length vs) * 0.75\<rfloor>
           \<and> nat \<lfloor>real (length vs) * 0.95\<rfloor> < length vs
           \<and> p95 st = sort vs ! nat \<lfloor>real (length vs) * 0.95\<rfloor>
           \<and> median st = (if odd (length vs) then sort vs ! (length vs div 2)
                           else (sort vs ! (length vs div 2 - 1) + sort vs ! (length vs div 2)) / 2)
           \<and> (sort vs = [10, 20, 30, 40, 50] \<longrightarrow> p75 st = 40 \<and> p95 st = 50 \<and> median st = 30)"
proof -
  let ?n = "length vs"
  have f75: "nat \<lfloor>real ?n * 0.75\<rfloor> = (3 * ?n) div 4"
  proof -
    have "real ?n * 0.75 = real (3 * ?n) / real 4" by simp
    then have "\<lfloor>real ?n * 0.75\<rfloor> = int ((3 * ?n) div 4)"
      by (simp only: floor_divide_of_nat_eq)
    then show ?thesis by (simp only: nat_int)
  qed
  have f95: "nat \<lfloor>real ?n * 0.95\<rfloor> = (19 * ?n) div 20"
  proof -
    have "real ?n * 0.95 = real (19 * ?n) / real 20" by simp
    then have "\<lfloor>real ?n * 0.95\<rfloor> = int ((19 * ?n) div 20)"
      by (simp only: floor_divide_of_nat_eq)
    then show ?thesis by (simp only: nat_int)
  qed
  have pos: "0 < ?n" using assms(2) by simp
  have r75: "(3 * ?n) div 4 < ?n" using pos by (rule rank_in_range)
  have r95: "(19 * ?n) div 20 < ?n" using pos by (rule rank_in_range)
  have ex: "sort vs = [10, 20, 30, 40, 50] \<Longrightarrow>
              ?n = 5 \<and> sort vs ! 3 = 40 \<and> sort vs ! 4 = 50 \<and> sort vs ! 2 = 30"
  proof -
    assume a: "sort vs = [10, 20, 30, 40, 50]"
    have "length (sort vs) = 5" unfolding a by simp
    then have "?n = 5" by simp
    moreover have "sort vs ! 3 = 40" "sort vs ! 4 = 50" "sort vs ! 2 = 30"
      unfolding a by simp_all
    ultimately show ?thesis by simp
  qed
  show ?thesis
    unfolding calculate_statistics_nonempty [OF assms] f75 f95
    using r75 r95 ex by auto
qed

theorem percentile_nearest_rank_witness:
  "metric_values no_float sample_rows ''cpu'' = Inr [30, 10, 50, 20, 40]
   \<and> sort [30, 10, 50, 20, 40 :: real] = [10, 20, 30, 40, 50]
   \<and> (\<exists>st. calculate_statistics no_float sample_rows ''cpu'' = Inr st
          \<and> p75 st = 40 \<and> p95 st = 50 \<and> median st = 30)"
proof -
  have v: "metric_values no_float sample_rows ''cpu'' = Inr [30, 10, 50, 20, 40]"
    by (simp add: sample_rows_def ebind_Inr)
  have s: "sort [30, 10, 50, 20, 40 :: real] = [10, 20, 30, 40, 50]"
    by simp
  have n: "[30, 10, 50, 20, 40 :: real] \<noteq> []" by simp
  from percentile_nearest_rank [OF v n] s v show ?thesis
    by blast
qed

text \<open>
  C2. For every non-empty value series the statistics record satisfies
  \<open>min \<le> median \<le> p75 \<le> p95 \<le> max\<close>.
\<close>

theorem percentile_monotonicity:
  assumes "metric_values pf data metric = Inr vs" and "vs \<noteq> []"
  shows "\<exists>st. calculate_statistics pf data metric = Inr st
           \<and> min_value st \<le> median st \<and> median st \<le> p75 st
           \<and> p75 st \<le> p95 st \<and> p95 st \<le> max_value st"
proof -
  let ?n = "length vs" and ?s = "sort vs"
  have pos: "0 < ?n" using assms(2) by simp
  have r95: "(19 * ?n) div 20 < ?n" using pos by (rule rank_in_range)
  have h75: "?n div 2 \<le> (3 * ?n) div 4" by (rule rank_half_le)
  have h95: "(3 * ?n) div 4 \<le> (19 * ?n) div 20" by (rule rank_mono)
  have lo: "\<And>k. k < ?n \<Longrightarrow> Min (set vs) \<le> ?s ! k"
    by (simp add: sort_nth_mem)
  have hi: "\<And>k. k < ?n \<Longrightarrow> ?s ! k \<le> Max (set vs)"
    by (simp add: sort_nth_mem)
  have up: "\<And>k. k \<le> ?n div 2 \<Longrightarrow> ?s ! k \<le> ?s ! ((3 * ?n) div 4)"
    using h75 r95 h95 by (intro sort_nth_mono) simp_all
  have half: "?n div 2 < ?n" using pos by simp
  have m1: "Min (set vs) \<le> (if odd ?n then ?s ! (?n div 2)
                else (?s ! (?n div 2 - 1) + ?s ! (?n div 2)) / 2)"
  proof -
    have "?n div 2 - 1 < ?n" using half by simp
    then show ?thesis
      using lo [of "?n div 2"] lo [of "?n div 2 - 1"] half by (simp del: One_nat_def)
  qed
  have m2: "(if odd ?n then ?s ! (?n div 2)
                else (?s ! (?n div 2 - 1) + ?s ! (?n div 2)) / 2) \<le> ?s ! ((3 * ?n) div 4)"
  proof -
    have "?n div 2 - 1 \<le> ?n div 2" by simp
    then show ?thesis
      using up [of "?n div 2"] up [of "?n div 2 - 1"] by (simp del: One_nat_def)
  qed
  have m3: "?s ! ((3 * ?n) div 4) \<le> ?s ! ((19 * ?n) div 20)"
    using h95 r95 by (rule sort_nth_mono)
  have m4: "?s ! ((19 * ?n) div 20) \<le> Max (set vs)"
    using r95 by (rule hi)
  show ?thesis
    unfolding calculate_statistics_nonempty [OF assms]
    using m1 m2 m3 m4 by simp
qed

theorem percentile_monotonicity_witness:
  "metric_values no_float sample_rows ''cpu'' = Inr [30, 10, 50, 20, 40]
   \<and> (\<exists>st. calculate_statistics no_float sample_rows ''cpu'' = Inr st
          \<and> min_value st \<le> median st \<and> median st \<le> p75 st
          \<and> p75 st \<le> p95 st \<and> p95 st \<le> max_value st)"
proof -
  have v: "metric_values no_float sample_rows ''cpu'' = Inr [30, 10, 50, 20, 40]"
    by (simp add: sample_rows_def ebind_Inr)
  have n: "[30, 10, 50, 20, 40 :: real] \<noteq> []" by simp
  from percentile_monotonicity [OF v n] v show ?thesis
    by blast
qed

lemma statistics_loop_absent:
  "metric \<notin> set (columns df) \<Longrightarrow> statistics_loop agg df metrics acc metric = acc metric"
  by (induction metrics arbitrary: acc) auto

text \<open>
  C3 as stated fails for the data-frame variant of the engine
  (\<^verbatim>\<open>analyze.calculate_statistics\<close>): for a metric whose column is absent it prints
  a warning and skips the metric, so the result holds no record for it, where the claim
  promises the record of zeros.
\<close>

theorem absent_column_skipped_counterexample:
  "calculate_statistics_frame (\<lambda>k cells. None)
     \<lparr>columns = [''timestamp''], dtypes = [''timestamp'' \<mapsto> DStr], rows = []\<rparr>
     [''cpu_usage_percent''] ''cpu_usage_percent'' = None"
  by (simp add: calculate_statistics_frame_def)

text \<open>
  C3 (amended). When the metric has no observation (every row lacks the column or holds
  the empty string in it; in particular when there are no rows), the engine of
  \<^verbatim>\<open>mactop_monitor.py\<close> returns the record whose eight fields are all 0 and raises
  nothing. The data-frame variant \<^verbatim>\<open>analyze.calculate_statistics\<close> returns no
  record for a metric whose column is absent.
\<close>

theorem empty_series_all_zero:
  assumes "\<forall>r \<in> set data. r metric = None \<or> r metric = Some (Str [])"
  shows "calculate_statistics pf data metric =
           Inr \<lparr>min_value = 0, max_value = 0, mean = 0, median = 0, p75 = 0, p95 = 0,
                std_dev = 0, variance = 0\<rparr>
       \<and> (metric \<notin> set (columns df) \<longrightarrow> calculate_statistics_frame agg df metrics metric = None)"
  unfolding calculate_statistics_def metric_values_all_missing [OF assms] ebind_Inr
  by (simp add: zero_stats_def calculate_statistics_frame_def statistics_loop_absent)

theorem empty_series_all_zero_witness:
  "calculate_statistics no_float [Map.empty, [''cpu'' \<mapsto> Str []], [''gpu'' \<mapsto> Num 5]] ''cpu'' =
     Inr \<lparr>min_value = 0, max_value = 0, mean = 0, median = 0, p75 = 0, p95 = 0,
          std_dev = 0, variance = 0\<rparr>
   \<and> calculate_statistics_frame (\<lambda>k cells. Some 1) \<lparr>columns = [''timestamp'', ''gpu''], dtypes = [''timestamp'' \<mapsto> DStr, ''gpu'' \<mapsto> DStr], rows = []\<rparr>
       [''gpu'', ''cpu''] ''cpu'' = None"
proof -
  have h: "\<forall>r \<in> set [Map.empty, [''cpu'' \<mapsto> Str []], [''gpu'' \<mapsto> Num 5]].
             r ''cpu'' = None \<or> r ''cpu'' = Some (Str [])"
    by simp
  have c: "''cpu'' \<notin> set (columns \<lparr>columns = [''timestamp'', ''gpu''], dtypes = [''timestamp'' \<mapsto> DStr, ''gpu'' \<mapsto> DStr], rows = []\<rparr>)"
    by simp
  from empty_series_all_zero [OF h, of no_float "\<lparr>columns = [''timestamp'', ''gpu''], dtypes = [''timestamp'' \<mapsto> DStr, ''gpu'' \<mapsto> DStr], rows = []\<rparr>"
      "\<lambda>k cells. Some 1" "[''gpu'', ''cpu'']"] c
  show ?thesis by blast
qed

section \<open>Claims about the sufficiency scorer\<close>

lemma sufficiency_loop_other:
  "metric \<notin> fst ` set items \<Longrightarrow> sufficiency_loop items acc metric = acc metric"
  by (induction items acc rule: sufficiency_loop.induct) (auto split: option.splits)

lemma sufficiency_loop_entry:
  assumes "distinct (map fst items)" and "(metric, ms) \<in> set items"
    and "ms ''p75'' = Some a" and "ms ''p95'' = Some b" and "ms ''max'' = Some c"
  shows "sufficiency_loop items acc metric = Some (if c = 0 then 0 else (b - a) / c)"
  using assms
proof (induction items arbitrary: acc)
  case Nil
  then show ?case by simp
next
  case (Cons item items)
  obtain m' ms' where item: "item = (m', ms')" by (cases item)
  show ?case
  proof (cases "m' = metric")
    case True
    with Cons.prems item have ms: "ms' = ms"
      by (auto simp: image_iff)
    from True Cons.prems item have "metric \<notin> fst ` set items"
      by auto
    then show ?thesis
      using Cons.prems(3-5) True
      by (simp add: item ms sufficiency_loop_other)
  next
    case False
    with Cons.prems item have "(metric, ms) \<in> set items" "distinct (map fst items)"
      by auto
    then have "\<And>acc'. sufficiency_loop items acc' metric = Some (if c = 0 then 0 else (b - a) / c)"
      using Cons.IH Cons.prems(3-5) by blast
    then show ?thesis
      by (simp add: item split: option.splits)
  qed
qed

text \<open>
  C7. For every statistics record (a metric's entry holding \<open>p75\<close>, \<open>p95\<close> and
  \<open>max\<close>) the scorer returns \<open>(p95 - p75) / max\<close>, and 0 when \<open>max\<close> is 0. The
  score of a metric depends on that metric's own record only. With
  \<open>p75 = 75, p95 = 95, max = 100\<close> the score is 0.2, with \<open>p75 = 50, p95 = 90,
  max = 100\<close> it is 0.4.
\<close>

theorem sufficiency_score:
  assumes "distinct (map fst items)" and "(metric, ms) \<in> set items"
    and "ms ''p75'' = Some a" and "ms ''p95'' = Some b" and "ms ''max'' = Some c"
  shows "calculate_sufficiency_metrics items metric = Some (if c = 0 then 0 else (b - a) / c)"
  unfolding calculate_sufficiency_metrics_def
  using assms by (rule sufficiency_loop_entry)

theorem sufficiency_score_witness:
  "calculate_sufficiency_metrics sample_stats ''metric1'' = Some 0.2
   \<and> calculate_sufficiency_metrics sample_stats ''metric2'' = Some 0.4
   \<and> calculate_sufficiency_metrics [(''idle'', [''p75'' \<mapsto> 0, ''p95'' \<mapsto> 0, ''max'' \<mapsto> 0])] ''idle''
       = Some 0"
proof -
  have d: "distinct (map fst sample_stats)"
    by (simp add: sample_stats_def)
  have m1: "(''metric1'', [''p75'' \<mapsto> 75, ''p95'' \<mapsto> 95, ''max'' \<mapsto> 100]) \<in> set sample_stats"
    and m2: "(''metric2'', [''p75'' \<mapsto> 50, ''p95'' \<mapsto> 90, ''max'' \<mapsto> 100]) \<in> set sample_stats"
    by (simp_all add: sample_stats_def)
  have "calculate_sufficiency_metrics sample_stats ''metric1'' = Some (if (100::real) = 0 then 0 else (95 - 75) / 100)"
    by (rule sufficiency_score [OF d m1]) simp_all
  moreover
  have "calculate_sufficiency_metrics sample_stats ''metric2'' = Some (if (100::real) = 0 then 0 else (90 - 50) / 100)"
    by (rule sufficiency_score [OF d m2]) simp_all
  moreover
  have "calculate_sufficiency_metrics [(''idle'', [''p75'' \<mapsto> 0, ''p95'' \<mapsto> 0, ''max'' \<mapsto> 0])] ''idle''
          = Some (if (0::real) = 0 then 0 else (0 - 0) / 0)"
    using sufficiency_score [of "[(''idle'', [''p75'' \<mapsto> 0, ''p95'' \<mapsto> 0, ''max'' \<mapsto> 0])]"
        "''idle''" "[''p75'' \<mapsto> 0, ''p95'' \<mapsto> 0, ''max'' \<mapsto> 0]" 0 0 0]
    by simp
  ultimately show ?thesis by simp
qed

section \<open>Claims about the derived-metric calculator\<close>

lemma map_err_total:
  assumes "\<And>x. x \<in> set xs \<Longrightarrow> f x = Inr (g x)"
  shows "map_err f xs = Inr (map g xs)"
  using assms by (induction xs) (simp_all add: ebind_Inr)

lemma percent_of_total_numeric:
  assumes "is_numeric (r ''memory_total'')" and "is_numeric (r numerator)"
  shows "percent_of_total numerator r = Inr (spec_percent (r numerator) (r ''memory_total''))"
proof -
  from assms(1) consider "r ''memory_total'' = Some Null"
    | t where "r ''memory_total'' = Some (Float t)"
    by (cases "r ''memory_total''" rule: is_numeric.cases) auto
  then show ?thesis
  proof cases
    case 1
    from assms(2) show ?thesis
      by (cases "r numerator" rule: is_numeric.cases)
        (auto simp: 1 percent_of_total_def col_def ebind_Inr when_then_otherwise_def)
  next
    case 2
    from assms(2) show ?thesis
      by (cases "r numerator" rule: is_numeric.cases)
        (auto simp: 2 percent_of_total_def col_def ebind_Inr when_then_otherwise_def)
  qed
qed

lemma derived_column_numeric:
  assumes "numeric_column df ''memory_total''" and "numeric_column df numerator"
  shows "derived_column name numerator df =
           Inr \<lparr>columns = (if name \<in> set (columns df) then columns df else columns df @ [name]),
                dtypes = (dtypes df)(name \<mapsto> DFloat),
                rows = map (\<lambda>r. r(name \<mapsto> spec_percent (r numerator) (r ''memory_total''))) (rows df)\<rparr>"
proof -
  have cells: "\<And>r. r \<in> set (rows df) \<Longrightarrow> is_numeric (r ''memory_total'') \<and> is_numeric (r numerator)"
    using assms by (simp add: numeric_column_def list_all_iff)
  have "map_err (\<lambda>r. ebind (percent_of_total numerator r) (\<lambda>v. Inr (r(name \<mapsto> v)))) (rows df)
          = Inr (map (\<lambda>r. r(name \<mapsto> spec_percent (r numerator) (r ''memory_total''))) (rows df))"
    by (rule map_err_total) (simp add: percent_of_total_numeric cells ebind_Inr)
  then show ?thesis
    using assms by (simp add: derived_column_def with_column_def ebind_Inr numeric_column_def)
qed

lemma calculate_derived_metrics_numeric:
  assumes "numeric_column df ''memory_used''" and "numeric_column df ''memory_total''"
    and "numeric_column df ''memory_swap_used''"
  shows "\<exists>cs ds. calculate_derived_metrics df =
           Inr \<lparr>columns = cs, dtypes = ds,
                rows = map (\<lambda>r. r(''ram_percent'' \<mapsto> spec_percent (r ''memory_used'') (r ''memory_total''),
                                  ''swap_pressure_percent'' \<mapsto> spec_percent (r ''memory_swap_used'') (r ''memory_total'')))
                         (rows df)\<rparr>"
proof -
  let ?df1 = "\<lparr>columns = (if ''ram_percent'' \<in> set (columns df) then columns df else columns df @ [''ram_percent'']),
                dtypes = (dtypes df)(''ram_percent'' \<mapsto> DFloat),
                rows = map (\<lambda>r. r(''ram_percent'' \<mapsto> spec_percent (r ''memory_used'') (r ''memory_total''))) (rows df)\<rparr>"
  have one: "derived_column ''ram_percent'' ''memory_used'' df = Inr ?df1"
    using assms(2,1) by (rule derived_column_numeric)
  have c1: "numeric_column ?df1 ''memory_total''" "numeric_column ?df1 ''memory_swap_used''"
    using assms(2,3) by (auto simp: numeric_column_def list_all_iff)
  have two: "derived_column ''swap_pressure_percent'' ''memory_swap_used'' ?df1 =
      Inr \<lparr>columns = (if ''swap_pressure_percent'' \<in> set (columns ?df1) then columns ?df1
                       else columns ?df1 @ [''swap_pressure_percent'']),
           dtypes = (dtypes ?df1)(''swap_pressure_percent'' \<mapsto> DFloat),
           rows = map (\<lambda>r. r(''swap_pressure_percent'' \<mapsto> spec_percent (r ''memory_swap_used'') (r ''memory_total'')))
                    (rows ?df1)\<rparr>"
    by (rule derived_column_numeric [OF c1])
  show ?thesis
    unfolding calculate_derived_metrics_def one ebind_Inr two
    by (simp add: comp_def)
qed



text \<open>
  On a frame whose memory columns are \<^verbatim>\<open>String\<close> columns, as the CSV reader gives it
  for a file with the header and no row, the calculator raises.
\<close>

lemma header_only_frame_raises:
  "calculate_derived_metrics header_only_frame = Inl InvalidOperationError"
  by (simp add: calculate_derived_metrics_def derived_column_def header_only_frame_def
      is_number_type_def ebind_Inl)

text \<open>
  The guard of the source is \<^verbatim>\<open>memory_total > 0\<close>: a negative \<^verbatim>\<open>memory_total\<close>,
  which a memory gauge never reports, also gives 0.
\<close>

lemma negative_total_gives_zero:
  "\<exists>out. calculate_derived_metrics (memory_frame [memory_row 1 (- 4) 2]) = Inr out
      \<and> (rows out ! 0) ''ram_percent'' = Some (Float 0)"
  by (simp add: calculate_derived_metrics_def derived_column_def with_column_def memory_frame_def
      memory_row_def percent_of_total_def col_def ebind_Inr when_then_otherwise_def
      is_number_type_def)



section \<open>Claims about the loader and the entry point\<close>

lemma map_filter_all_None:
  "\<forall>x \<in> set xs. f x = None \<Longrightarrow> List.map_filter f xs = []"
  by (induction xs) (simp_all add: map_filter_simps)

lemma load_data_unreadable:
  assumes "\<forall>p \<in> set file_paths. scan_csv p = None"
  shows "load_data scan_csv s1 s2 file_paths = Inl ValueError"
  by (simp add: load_data_def map_filter_all_None [OF assms])

text \<open>
  C8 as stated fails: when files are found but none of them can be read, the
  \<^verbatim>\<open>ValueError\<close> of the load leaves \<^verbatim>\<open>run_analysis\<close> as an exception; the result
  is not the structured error result.
\<close>

theorem unreadable_files_raise_counterexample:
  "run_analysis [''mactop_data_2023-04-01.csv''] unreadable no_time no_time (\<lambda>df. Inr (0::nat))
     = Inl ValueError
   \<and> (\<forall>msg. run_analysis [''mactop_data_2023-04-01.csv''] unreadable no_time no_time (\<lambda>df. Inr (0::nat))
         \<noteq> Inr (ErrorResult msg))"
  by (simp add: run_analysis_def load_data_def unreadable_def map_filter_simps ebind_Inl)

text \<open>
  C8 (amended). When zero files are supplied to the load, or none of the supplied files
  can be read, \<^verbatim>\<open>load_data\<close> fails with its \<^verbatim>\<open>ValueError\<close> (the "no data"
  condition). \<^verbatim>\<open>run_analysis\<close> returns the structured error result when no data file
  was found, without calling the load; when files were found and none can be read, the
  \<^verbatim>\<open>ValueError\<close> of the load propagates out of \<^verbatim>\<open>run_analysis\<close>.
\<close>

theorem no_data_conditions:
  assumes "\<forall>p \<in> set file_paths. scan_csv p = None"
  shows "load_data scan_csv s1 s2 [] = Inl ValueError
       \<and> load_data scan_csv s1 s2 file_paths = Inl ValueError
       \<and> run_analysis [] scan_csv s1 s2 summarise
           = Inr (ErrorResult ''No data files found for the specified date range.'')
       \<and> (file_paths \<noteq> [] \<longrightarrow> run_analysis file_paths scan_csv s1 s2 summarise = Inl ValueError)"
proof -
  have a: "load_data scan_csv s1 s2 [] = Inl ValueError"
    by (simp add: load_data_def)
  have b: "load_data scan_csv s1 s2 file_paths = Inl ValueError"
    using assms by (rule load_data_unreadable)
  have c: "run_analysis [] scan_csv s1 s2 summarise
           = Inr (ErrorResult ''No data files found for the specified date range.'')"
    by (simp add: run_analysis_def)
  have d: "file_paths \<noteq> [] \<longrightarrow> run_analysis file_paths scan_csv s1 s2 summarise = Inl ValueError"
    by (simp add: run_analysis_def b ebind_Inl)
  from a b c d show ?thesis by blast
qed

theorem no_data_conditions_witness:
  "load_data unreadable no_time no_time [''a.csv'', ''b.csv''] = Inl ValueError
   \<and> run_analysis [''a.csv'', ''b.csv''] unreadable no_time no_time (\<lambda>df. Inr (length (rows df)))
       = Inl ValueError
   \<and> run_analysis [] unreadable no_time no_time (\<lambda>df. Inr (length (rows df)))
       = Inr (ErrorResult ''No data files found for the specified date range.'')"
proof -
  have h: "\<forall>p \<in> set [''a.csv'', ''b.csv'']. unreadable p = None"
    by (simp add: unreadable_def)
  have n: "[''a.csv'', ''b.csv''] \<noteq> []" by simp
  from no_data_conditions [OF h, of no_time no_time "\<lambda>df. Inr (length (rows df))"] n
  show ?thesis by blast
qed







section \<open>Claims about the peak-window finder\<close>

lemma well_formed_timestamp:
  assumes "well_formed_row fromiso metric r"
  obtains s t where "r ''timestamp'' = Some (Str s)" and "fromiso s = Some t"
    and "fst (sample_of fromiso metric r) = t"
  using assms
  by (auto simp: well_formed_row_def sample_of_def split: option.splits cell.splits)

lemma stamp_rows_well_formed:
  "\<forall>r \<in> set data. well_formed_row fromiso metric r \<Longrightarrow>
     stamp_rows fromiso data = (map (stamped fromiso metric) data, True)"
proof (induction data)
  case Nil
  show ?case by simp
next
  case (Cons r data)
  then have wf: "well_formed_row fromiso metric r"
    and ih: "stamp_rows fromiso data = (map (stamped fromiso metric) data, True)"
    by simp_all
  from wf obtain s t where ts: "r ''timestamp'' = Some (Str s)" "fromiso s = Some t"
    and "fst (sample_of fromiso metric r) = t"
    by (rule well_formed_timestamp)
  then have st: "stamped fromiso metric r = r(''timestamp_obj'' \<mapsto> Dt t)"
    by (simp add: stamped_def)
  show ?case
    by (simp add: ts ih st)
qed

lemma timestamp_obj_stamped:
  "timestamp_obj (stamped fromiso metric r) = Inr (fst (sample_of fromiso metric r))"
  by (simp add: timestamp_obj_def stamped_def)

lemma map_err_timestamps:
  "map_err timestamp_obj (map (stamped fromiso metric) data)
     = Inr (map fst (map (sample_of fromiso metric) data))"
  by (induction data) (simp_all add: timestamp_obj_stamped ebind_Inr)

lemma stamped_metric:
  "metric \<noteq> ''timestamp_obj'' \<Longrightarrow> stamped fromiso metric r metric = r metric"
  by (simp add: stamped_def)

lemma well_formed_value:
  assumes "well_formed_row fromiso metric r"
  obtains (missing) "r metric = None \<or> r metric = Some (Str [])"
      and "snd (sample_of fromiso metric r) = None"
    | (number) v where "r metric = Some (Num v)" and "snd (sample_of fromiso metric r) = Some v"
  using assms
  by (auto simp: well_formed_row_def sample_of_def split: option.splits cell.splits)

lemma metric_values_stamped:
  assumes "\<forall>r \<in> set data. well_formed_row fromiso metric r" and "metric \<noteq> ''timestamp_obj''"
  shows "metric_values pf (map (stamped fromiso metric) data) metric
           = Inr (List.map_filter snd (map (sample_of fromiso metric) data))"
  using assms(1)
proof (induction data)
  case Nil
  show ?case by (simp add: map_filter_simps)
next
  case (Cons r data)
  then have ih: "metric_values pf (map (stamped fromiso metric) data) metric
           = Inr (List.map_filter snd (map (sample_of fromiso metric) data))"
    and wf: "well_formed_row fromiso metric r"
    by simp_all
  from wf show ?case
  proof (cases rule: well_formed_value)
    case missing
    then show ?thesis
      by (auto simp: ih stamped_metric [OF assms(2)] map_filter_simps)
  next
    case (number v)
    then show ?thesis
      by (simp add: ih stamped_metric [OF assms(2)] map_filter_simps ebind_Inr)
  qed
qed

lemma scan_window_stamped:
  assumes "\<forall>r \<in> set rs. well_formed_row fromiso metric r" and "metric \<noteq> ''timestamp_obj''"
  shows "scan_window pf metric e (map (stamped fromiso metric) rs) acc
           = Inr (acc @ List.map_filter snd
                    (takeWhile (\<lambda>q. fst q \<le> e) (map (sample_of fromiso metric) rs)))"
  using assms(1)
proof (induction rs arbitrary: acc)
  case Nil
  show ?case by (simp add: map_filter_simps)
next
  case (Cons r rs)
  then have ih: "\<And>acc. scan_window pf metric e (map (stamped fromiso metric) rs) acc
           = Inr (acc @ List.map_filter snd
                    (takeWhile (\<lambda>q. fst q \<le> e) (map (sample_of fromiso metric) rs)))"
    and wf: "well_formed_row fromiso metric r"
    by simp_all
  from wf show ?case
  proof (cases rule: well_formed_value)
    case missing
    then show ?thesis
      by (auto simp: ih timestamp_obj_stamped stamped_metric [OF assms(2)] map_filter_simps
          ebind_Inr)
  next
    case (number v)
    then show ?thesis
      by (simp add: ih timestamp_obj_stamped stamped_metric [OF assms(2)] map_filter_simps
          ebind_Inr)
  qed
qed

lemma takeWhile_sorted_filter:
  "sorted (map fst ps) \<Longrightarrow> takeWhile (\<lambda>q. fst q \<le> (e::int)) ps = filter (\<lambda>q. fst q \<le> e) ps"
proof (induction ps)
  case Nil
  show ?case by simp
next
  case (Cons p ps)
  show ?case
  proof (cases "fst p \<le> e")
    case True
    with Cons show ?thesis by simp
  next
    case False
    with Cons.prems have "\<forall>q \<in> set ps. \<not> fst q \<le> e"
      by fastforce
    then have "filter (\<lambda>q. fst q \<le> e) ps = []"
      by (simp add: filter_empty_conv)
    with False show ?thesis by simp
  qed
qed

lemma window_scan_mean:
  assumes "\<forall>r \<in> set (x # rs). well_formed_row fromiso metric r" and "metric \<noteq> ''timestamp_obj''"
    and "sorted (map fst (map (sample_of fromiso metric) (x # rs)))"
  shows "\<exists>vs. scan_window pf metric (fst (sample_of fromiso metric x) + w)
                (map (stamped fromiso metric) (x # rs)) [] = Inr vs
           \<and> mean_opt vs = window_mean w (map (sample_of fromiso metric) (x # rs))"
  unfolding scan_window_stamped [OF assms(1,2)] takeWhile_sorted_filter [OF assms(3)]
  by (simp add: window_mean_def)


lemma peak_loop_stamped:
  assumes "\<forall>r \<in> set rs. well_formed_row fromiso metric r" and "metric \<noteq> ''timestamp_obj''"
    and "sorted (map fst (map (sample_of fromiso metric) rs))"
  shows "\<exists>b' h'. peak_loop pf metric w (map (stamped fromiso metric) rs) i h b = Inr (b', h')
           \<and> h \<le> h'
           \<and> (\<forall>k a. Suc k < length rs \<longrightarrow>
                  window_mean w (drop k (map (sample_of fromiso metric) rs)) = Some a \<longrightarrow> a \<le> h')
           \<and> ((b' = b \<and> h' = h)
              \<or> (\<exists>k. Suc k < length rs \<and> b' = i + k \<and> h < h'
                     \<and> window_mean w (drop k (map (sample_of fromiso metric) rs)) = Some h'
                     \<and> (\<forall>j a. j < k \<longrightarrow>
                           window_mean w (drop j (map (sample_of fromiso metric) rs)) = Some a \<longrightarrow> a < h')))"
  using assms(1,3)
proof (induction rs arbitrary: i h b rule: induct_list012)
  case 1
  show ?case by simp
next
  case (2 x)
  show ?case by simp
next
  case (3 x y zs)
  let ?S = "map (stamped fromiso metric)" and ?P = "map (sample_of fromiso metric)"
  have wf: "\<forall>r \<in> set (y # zs). well_formed_row fromiso metric r"
    and srt: "sorted (map fst (?P (y # zs)))"
    using "3.prems" by simp_all
  note ih = "3.IH"(2) [OF wf srt]
  from window_scan_mean [OF "3.prems"(1) assms(2) "3.prems"(2)]
  obtain vs where sw: "scan_window pf metric (fst (sample_of fromiso metric x) + w) (?S (x # y # zs)) [] = Inr vs"
    and wm: "mean_opt vs = window_mean w (?P (x # y # zs))"
    by blast
  let ?avg = "sum_list vs / real (length vs)"
  have dr: "\<And>k. drop (Suc k) (?P (x # y # zs)) = drop k (?P (y # zs))"
    by simp
  have step: "peak_loop pf metric w (?S (x # y # zs)) i h b =
      (if vs \<noteq> [] \<and> ?avg > h then peak_loop pf metric w (?S (y # zs)) (Suc i) ?avg i
       else peak_loop pf metric w (?S (y # zs)) (Suc i) h b)"
    using sw by (simp add: timestamp_obj_stamped ebind_Inr)
  show ?case
  proof (cases "vs \<noteq> [] \<and> ?avg > h")
    case True
    then have w0: "window_mean w (drop 0 (?P (x # y # zs))) = Some ?avg"
      using wm by (simp add: mean_opt_def)
    from ih [of "Suc i" ?avg i] obtain b' h' where
      r: "peak_loop pf metric w (?S (y # zs)) (Suc i) ?avg i = Inr (b', h')"
      and le: "?avg \<le> h'"
      and bound: "\<And>k a. Suc k < length (y # zs) \<Longrightarrow>
                  window_mean w (drop k (?P (y # zs))) = Some a \<Longrightarrow> a \<le> h'"
      and which: "(b' = i \<and> h' = ?avg)
              \<or> (\<exists>k. Suc k < length (y # zs) \<and> b' = Suc i + k \<and> ?avg < h'
                     \<and> window_mean w (drop k (?P (y # zs))) = Some h'
                     \<and> (\<forall>j a. j < k \<longrightarrow> window_mean w (drop j (?P (y # zs))) = Some a \<longrightarrow> a < h'))"
      by blast
    have res: "peak_loop pf metric w (?S (x # y # zs)) i h b = Inr (b', h')"
      using step True r by simp
    have hh: "h \<le> h'" using True le by simp
    have bnd: "\<forall>k a. Suc k < length (x # y # zs) \<longrightarrow>
                  window_mean w (drop k (?P (x # y # zs))) = Some a \<longrightarrow> a \<le> h'"
    proof (intro allI impI)
      fix k a
      assume k: "Suc k < length (x # y # zs)"
        and a: "window_mean w (drop k (?P (x # y # zs))) = Some a"
      show "a \<le> h'"
      proof (cases k)
        case 0
        with a w0 le show ?thesis by simp
      next
        case (Suc k')
        with k a bound [of k' a] show ?thesis by (simp only: dr; simp)
      qed
    qed
    have sel: "\<exists>k. Suc k < length (x # y # zs) \<and> b' = i + k \<and> h < h'
                 \<and> window_mean w (drop k (?P (x # y # zs))) = Some h'
                 \<and> (\<forall>j a. j < k \<longrightarrow> window_mean w (drop j (?P (x # y # zs))) = Some a \<longrightarrow> a < h')"
      using which
    proof
      assume "b' = i \<and> h' = ?avg"
      then have "Suc 0 < length (x # y # zs) \<and> b' = i + 0 \<and> h < h'
                 \<and> window_mean w (drop 0 (?P (x # y # zs))) = Some h'
                 \<and> (\<forall>j a. j < (0::nat) \<longrightarrow> window_mean w (drop j (?P (x # y # zs))) = Some a \<longrightarrow> a < h')"
        using True w0 by simp
      then show ?thesis by (rule exI)
    next
      assume "\<exists>k. Suc k < length (y # zs) \<and> b' = Suc i + k \<and> ?avg < h'
                     \<and> window_mean w (drop k (?P (y # zs))) = Some h'
                     \<and> (\<forall>j a. j < k \<longrightarrow> window_mean w (drop j (?P (y # zs))) = Some a \<longrightarrow> a < h')"
      then obtain k where k: "Suc k < length (y # zs)" "b' = Suc i + k" "?avg < h'"
        "window_mean w (drop k (?P (y # zs))) = Some h'"
        and before: "\<And>j a. j < k \<Longrightarrow> window_mean w (drop j (?P (y # zs))) = Some a \<Longrightarrow> a < h'"
        by blast
      have early: "\<forall>j a. j < Suc k \<longrightarrow> window_mean w (drop j (?P (x # y # zs))) = Some a \<longrightarrow> a < h'"
      proof (intro allI impI)
        fix j a
        assume j: "j < Suc k" and a: "window_mean w (drop j (?P (x # y # zs))) = Some a"
        show "a < h'"
        proof (cases j)
          case 0
          with a w0 k(3) show ?thesis by simp
        next
          case (Suc j')
          with j a before [of j' a] show ?thesis by (simp only: dr; simp)
        qed
      qed
      have "Suc (Suc k) < length (x # y # zs) \<and> b' = i + Suc k \<and> h < h'
                 \<and> window_mean w (drop (Suc k) (?P (x # y # zs))) = Some h'"
        using k True by (simp only: dr; simp)
      with early show ?thesis by blast
    qed
    from res hh bnd sel show ?thesis by blast
  next
    case False
    then have w0: "\<And>a. window_mean w (drop 0 (?P (x # y # zs))) = Some a \<Longrightarrow> a \<le> h"
      using wm by (auto simp: mean_opt_def split: if_splits)
    from ih [of "Suc i" h b] obtain b' h' where
      r: "peak_loop pf metric w (?S (y # zs)) (Suc i) h b = Inr (b', h')"
      and le: "h \<le> h'"
      and bound: "\<And>k a. Suc k < length (y # zs) \<Longrightarrow>
                  window_mean w (drop k (?P (y # zs))) = Some a \<Longrightarrow> a \<le> h'"
      and which: "(b' = b \<and> h' = h)
              \<or> (\<exists>k. Suc k < length (y # zs) \<and> b' = Suc i + k \<and> h < h'
                     \<and> window_mean w (drop k (?P (y # zs))) = Some h'
                     \<and> (\<forall>j a. j < k \<longrightarrow> window_mean w (drop j (?P (y # zs))) = Some a \<longrightarrow> a < h'))"
      by blast
    have res: "peak_loop pf metric w (?S (x # y # zs)) i h b = Inr (b', h')"
      using step False r by simp
    have bnd: "\<forall>k a. Suc k < length (x # y # zs) \<longrightarrow>
                  window_mean w (drop k (?P (x # y # zs))) = Some a \<longrightarrow> a \<le> h'"
    proof (intro allI impI)
      fix k a
      assume k: "Suc k < length (x # y # zs)"
        and a: "window_mean w (drop k (?P (x # y # zs))) = Some a"
      show "a \<le> h'"
      proof (cases k)
        case 0
        with a w0 [of a] le show ?thesis by simp
      next
        case (Suc k')
        with k a bound [of k' a] show ?thesis by (simp only: dr; simp)
      qed
    qed
    have sel: "(b' = b \<and> h' = h) \<or> (\<exists>k. Suc k < length (x # y # zs) \<and> b' = i + k \<and> h < h'
                 \<and> window_mean w (drop k (?P (x # y # zs))) = Some h'
                 \<and> (\<forall>j a. j < k \<longrightarrow> window_mean w (drop j (?P (x # y # zs))) = Some a \<longrightarrow> a < h'))"
      using which
    proof
      assume "b' = b \<and> h' = h"
      then show ?thesis by (rule disjI1)
    next
      assume "\<exists>k. Suc k < length (y # zs) \<and> b' = Suc i + k \<and> h < h'
                     \<and> window_mean w (drop k (?P (y # zs))) = Some h'
                     \<and> (\<forall>j a. j < k \<longrightarrow> window_mean w (drop j (?P (y # zs))) = Some a \<longrightarrow> a < h')"
      then obtain k where k: "Suc k < length (y # zs)" "b' = Suc i + k" "h < h'"
        "window_mean w (drop k (?P (y # zs))) = Some h'"
        and before: "\<And>j a. j < k \<Longrightarrow> window_mean w (drop j (?P (y # zs))) = Some a \<Longrightarrow> a < h'"
        by blast
      have early: "\<forall>j a. j < Suc k \<longrightarrow> window_mean w (drop j (?P (x # y # zs))) = Some a \<longrightarrow> a < h'"
      proof (intro allI impI)
        fix j a
        assume j: "j < Suc k" and a: "window_mean w (drop j (?P (x # y # zs))) = Some a"
        show "a < h'"
        proof (cases j)
          case 0
          with a w0 [of a] k(3) show ?thesis by simp
        next
          case (Suc j')
          with j a before [of j' a] show ?thesis by (simp only: dr; simp)
        qed
      qed
      have "Suc (Suc k) < length (x # y # zs) \<and> b' = i + Suc k \<and> h < h'
                 \<and> window_mean w (drop (Suc k) (?P (x # y # zs))) = Some h'"
        using k by (simp only: dr; simp)
      with early show ?thesis by blast
    qed
    from res le bnd sel show ?thesis by blast
  qed
qed


lemma sorted_Min_Max:
  assumes "sorted (xs :: int list)" and "xs \<noteq> []"
  shows "Min (set xs) = hd xs" and "Max (set xs) = last xs"
proof -
  have "\<forall>y \<in> set xs. hd xs \<le> y"
    using assms by (cases xs) auto
  then show "Min (set xs) = hd xs"
    using assms(2) by (intro Min_eqI) auto
  have "\<forall>y \<in> set xs. y \<le> last xs"
    using assms
    by (metis in_set_conv_nth last_conv_nth sorted_nth_mono Suc_pred' length_greater_0_conv
        less_Suc_eq_le lessI)
  then show "Max (set xs) = last xs"
    using assms(2) by (intro Max_eqI) auto
qed

lemma span_microseconds:
  "real_of_int d / 1000000 < real_of_int (m * 60) \<longleftrightarrow> d < m * 60000000"
proof -
  have "real_of_int d / 1000000 < real_of_int (m * 60)
          \<longleftrightarrow> real_of_int d < real_of_int (m * 60000000)"
    by (simp add: field_simps)
  then show ?thesis by (simp only: of_int_less_iff)
qed

lemma find_peak_window_well_formed:
  assumes "\<forall>r \<in> set data. well_formed_row fromiso metric r" and "2 \<le> length data"
  shows "fst (find_peak_window pf fromiso data metric window_minutes) =
           (let ps = map (sample_of fromiso metric) data; stamped_data = map (stamped fromiso metric) data in
            if Max (set (map fst ps)) - Min (set (map fst ps)) < window_minutes * 60000000
            then ebind (metric_values pf stamped_data metric) (\<lambda>values.
                   Inr (0, if values \<noteq> [] then sum_list values / real (length values) else 0))
            else peak_loop pf metric (window_minutes * 60 * 1000000) stamped_data 0 0 0)"
  using assms(2)
  by (simp add: find_peak_window_def stamp_rows_well_formed [OF assms(1)] map_err_timestamps
      ebind_Inr Let_def span_microseconds del: set_map)

text \<open>
  C4 (amended). For a series of well-formed rows in chronological order (every
  timestamp parses, every cell of the metric is a number, empty or absent):
  with fewer than two rows the finder returns \<open>(0, 0.0)\<close>; otherwise, when the span
  between the first and the last timestamp is shorter than the window, it returns 0 and
  the mean of all values of the series (0.0 when there is none); otherwise it returns
  \<open>(b, h)\<close> where \<open>h\<close> is at least 0 and at least the average of every window that
  starts at an index other than the last one (a window holds the values at and after
  its start whose timestamps lie within the duration), and either \<open>h = 0\<close> and
  \<open>b = 0\<close> (no window average exceeds 0), or \<open>b\<close> is the first start index, the
  last index excluded, whose window average is \<open>h\<close>, every earlier window having a
  strictly smaller average.
\<close>

theorem peak_window_finder:
  assumes "\<forall>r \<in> set data. well_formed_row fromiso metric r" and "metric \<noteq> ''timestamp_obj''"
    and "sorted (map fst (map (sample_of fromiso metric) data))"
  shows "let ps = map (sample_of fromiso metric) data;
             width = window_minutes * 60000000;
             result = fst (find_peak_window pf fromiso data metric window_minutes)
         in if length data < 2 then result = Inr (0, 0)
            else if fst (last ps) - fst (hd ps) < width
            then result = Inr (0, case mean_opt (List.map_filter snd ps) of None \<Rightarrow> 0 | Some m \<Rightarrow> m)
            else \<exists>b h. result = Inr (b, h) \<and> 0 \<le> h
                   \<and> (\<forall>k a. Suc k < length data \<longrightarrow> window_mean width (drop k ps) = Some a \<longrightarrow> a \<le> h)
                   \<and> (if h = 0 then b = 0
                       else Suc b < length data \<and> window_mean width (drop b ps) = Some h
                         \<and> (\<forall>j a. j < b \<longrightarrow> window_mean width (drop j ps) = Some a \<longrightarrow> a < h))"
proof (cases "length data < 2")
  case True
  then show ?thesis by (simp add: find_peak_window_def Let_def)
next
  case False
  let ?ps = "map (sample_of fromiso metric) data"
  let ?w = "window_minutes * 60000000"
  from False have len: "2 \<le> length data" and ne: "map fst ?ps \<noteq> []"
    by auto
  have mm: "Max (set (map fst ?ps)) - Min (set (map fst ?ps)) = fst (last ?ps) - fst (hd ?ps)"
    using sorted_Min_Max [OF assms(3) ne] ne by (simp add: hd_map last_map)
  note fpw = find_peak_window_well_formed [OF assms(1) len, of pf window_minutes, unfolded Let_def mm]
  show ?thesis
  proof (cases "fst (last ?ps) - fst (hd ?ps) < ?w")
    case True
    have "fst (find_peak_window pf fromiso data metric window_minutes)
            = Inr (0, case mean_opt (List.map_filter snd ?ps) of None \<Rightarrow> 0 | Some m \<Rightarrow> m)"
      unfolding fpw using True
      by (simp add: metric_values_stamped [OF assms(1,2)] ebind_Inr mean_opt_def)
    with True False show ?thesis by (simp add: Let_def)
  next
    case long: False
    have w: "window_minutes * 60 * 1000000 = ?w" by simp
    from peak_loop_stamped [OF assms, of pf ?w 0 0 0]
    obtain b h where
      r: "peak_loop pf metric ?w (map (stamped fromiso metric) data) 0 0 0 = Inr (b, h)"
      and h0: "0 \<le> h"
      and bound: "\<forall>k a. Suc k < length data \<longrightarrow> window_mean ?w (drop k ?ps) = Some a \<longrightarrow> a \<le> h"
      and which: "(b = 0 \<and> h = 0)
              \<or> (\<exists>k. Suc k < length data \<and> b = 0 + k \<and> 0 < h
                     \<and> window_mean ?w (drop k ?ps) = Some h
                     \<and> (\<forall>j a. j < k \<longrightarrow> window_mean ?w (drop j ?ps) = Some a \<longrightarrow> a < h))"
      by blast
    have res: "fst (find_peak_window pf fromiso data metric window_minutes) = Inr (b, h)"
      unfolding fpw w using long r by simp
    have sel: "if h = 0 then b = 0
               else Suc b < length data \<and> window_mean ?w (drop b ?ps) = Some h
                 \<and> (\<forall>j a. j < b \<longrightarrow> window_mean ?w (drop j ?ps) = Some a \<longrightarrow> a < h)"
      using which by auto
    from res h0 bound sel have "\<exists>b h. fst (find_peak_window pf fromiso data metric window_minutes) = Inr (b, h)
                   \<and> 0 \<le> h
                   \<and> (\<forall>k a. Suc k < length data \<longrightarrow> window_mean ?w (drop k ?ps) = Some a \<longrightarrow> a \<le> h)
                   \<and> (if h = 0 then b = 0
                       else Suc b < length data \<and> window_mean ?w (drop b ?ps) = Some h
                         \<and> (\<forall>j a. j < b \<longrightarrow> window_mean ?w (drop j ?ps) = Some a \<longrightarrow> a < h))"
      by blast
    with long False show ?thesis by (simp add: Let_def)
  qed
qed

lemma late_samples:
  "map (sample_of sample_iso ''cpu'') late_peak_rows = [(0, Some 1), (1200000000, Some 1), (2400000000, Some 100)]"
  by (simp add: late_peak_rows_def cpu_row_def sample_of_def sample_iso_def)

lemma late_well_formed: "\<forall>r \<in> set late_peak_rows. well_formed_row sample_iso ''cpu'' r"
  by (simp add: late_peak_rows_def cpu_row_def well_formed_row_def sample_iso_def)

lemma late_stamped:
  "stamp_rows sample_iso late_peak_rows =
     ([(cpu_row ''2024-01-01T00:00:00'' 1)(''timestamp_obj'' \<mapsto> Dt 0),
       (cpu_row ''2024-01-01T00:20:00'' 1)(''timestamp_obj'' \<mapsto> Dt 1200000000),
       (cpu_row ''2024-01-01T00:40:00'' 100)(''timestamp_obj'' \<mapsto> Dt 2400000000)], True)"
  by (simp add: late_peak_rows_def cpu_row_def sample_iso_def)

text \<open>
  C4 as stated fails in two places. A series of one row (value 5) spans less than the
  window, so the claim gives \<open>(0, 5)\<close>; the source returns \<open>(0, 0.0)\<close> for every
  series of fewer than two rows. For three rows 20 minutes apart with the values 1, 1
  and 100 and a window of 15 minutes, the window that starts at the last index has the
  highest average (100); the source never starts a window at the last index
  (\<^verbatim>\<open>range(len(data) - 1)\<close>) and returns \<open>(0, 1)\<close>.
\<close>

theorem peak_window_counterexample:
  "fst (find_peak_window no_float sample_iso [cpu_row ''2024-01-01T00:00:00'' 5] ''cpu'' 15) = Inr (0, 0)
   \<and> fst (find_peak_window no_float sample_iso [cpu_row ''2024-01-01T00:00:00'' 5] ''cpu'' 15) \<noteq> Inr (0, 5)
   \<and> metric_values no_float [cpu_row ''2024-01-01T00:00:00'' 5] ''cpu'' = Inr [5]
   \<and> fst (find_peak_window no_float sample_iso late_peak_rows ''cpu'' 15) = Inr (0, 1)
   \<and> window_mean (15 * 60000000) (drop 2 (map (sample_of sample_iso ''cpu'') late_peak_rows)) = Some 100"
proof -
  have a: "fst (find_peak_window no_float sample_iso [cpu_row ''2024-01-01T00:00:00'' 5] ''cpu'' 15) = Inr (0, 0)"
    by (simp add: find_peak_window_def)
  have b: "metric_values no_float [cpu_row ''2024-01-01T00:00:00'' 5] ''cpu'' = Inr [5]"
    by (simp add: cpu_row_def ebind_Inr)
  have c: "fst (find_peak_window no_float sample_iso late_peak_rows ''cpu'' 15) = Inr (0, 1)"
    by (simp add: find_peak_window_def late_stamped)
       (simp add: late_peak_rows_def timestamp_obj_def cpu_row_def ebind_Inr)
  have d: "window_mean (15 * 60000000) (drop 2 (map (sample_of sample_iso ''cpu'') late_peak_rows)) = Some 100"
    by (simp add: late_samples window_mean_def mean_opt_def map_filter_simps)
  from a b c d show ?thesis by simp
qed


theorem peak_window_finder_witness:
  "fst (find_peak_window no_float sample_iso late_peak_rows ''cpu'' 15) = Inr (0, 1)
   \<and> fst (find_peak_window no_float sample_iso late_peak_rows ''cpu'' 60) = Inr (0, 34)"
proof -
  let ?ps = "[(0, Some 1), (1200000000, Some 1), (2400000000, Some 100)] :: (int \<times> real option) list"
  have m: "''cpu'' \<noteq> ''timestamp_obj''" by simp
  have srt: "sorted (map fst (map (sample_of sample_iso ''cpu'') late_peak_rows))"
    by (simp add: late_samples)
  have len: "length late_peak_rows = 3" by (simp add: late_peak_rows_def)
  have w0: "window_mean 900000000 (drop 0 ?ps) = Some 1"
    and w1: "window_mean 900000000 (drop 1 ?ps) = Some 1"
    by (simp_all add: window_mean_def mean_opt_def map_filter_simps)
  from peak_window_finder [OF late_well_formed m srt, of 15 no_float]
  obtain b h where r: "fst (find_peak_window no_float sample_iso late_peak_rows ''cpu'' 15) = Inr (b, h)"
    and bound: "\<forall>k<2. \<forall>a. window_mean 900000000 (drop k ?ps) = Some a \<longrightarrow> a \<le> h"
    and sel: "if h = 0 then b = 0
              else Suc b < length late_peak_rows \<and> window_mean 900000000 (drop b ?ps) = Some h
                \<and> (\<forall>j a. j < b \<longrightarrow> window_mean 900000000 (drop j ?ps) = Some a \<longrightarrow> a < h)"
    by (auto simp: Let_def late_samples len)
  from bound have "window_mean 900000000 (drop 0 ?ps) = Some 1 \<longrightarrow> 1 \<le> h"
    by (rule allE [of _ 0]) (simp del: drop_0)
  with w0 have h1: "1 \<le> h" by (simp del: drop_0)
  then have hn: "h \<noteq> 0" by simp
  with sel len have b2: "Suc b < 3" and wb: "window_mean 900000000 (drop b ?ps) = Some h"
    and early: "\<And>j a. j < b \<Longrightarrow> window_mean 900000000 (drop j ?ps) = Some a \<Longrightarrow> a < h"
    by simp_all
  from b2 have "b = 0 \<or> b = 1" by auto
  then have "b = 0 \<and> h = 1"
  proof
    assume "b = 0"
    with wb w0 show ?thesis by simp
  next
    assume b: "b = 1"
    with wb w1 have "h = 1" by simp
    moreover from early [of 0 1] b w0 have "1 < h" by simp
    ultimately show ?thesis by simp
  qed
  with r have first: "fst (find_peak_window no_float sample_iso late_peak_rows ''cpu'' 15) = Inr (0, 1)"
    by simp
  have "fst (find_peak_window no_float sample_iso late_peak_rows ''cpu'' 60) = Inr (0, 34)"
    using peak_window_finder [OF late_well_formed m srt, of 60 no_float]
    by (simp add: Let_def late_samples len mean_opt_def map_filter_simps)
  with first show ?thesis by simp
qed


section \<open>What the operations change\<close>

lemma stamp_rows_rows:
  "fst (stamp_rows fromiso data)
     = map (stamp_row fromiso) (takeWhile (loop_continues fromiso) data)
       @ dropWhile (loop_continues fromiso) data"
proof (induction data)
  case Nil
  show ?case by simp
next
  case (Cons r data)
  obtain rest ok where s: "stamp_rows fromiso data = (rest, ok)"
    by (cases "stamp_rows fromiso data")
  with Cons have ih: "rest = map (stamp_row fromiso) (takeWhile (loop_continues fromiso) data)
       @ dropWhile (loop_continues fromiso) data"
    by simp
  show ?case
  proof (cases "r ''timestamp''")
    case None
    then show ?thesis by (simp add: loop_continues_def)
  next
    case (Some c)
    show ?thesis
    proof (cases c)
      case (Num x)
      with Some have "loop_continues fromiso r" "stamp_row fromiso r = r"
        by (simp_all add: loop_continues_def stamp_row_def)
      with Some Num s ih show ?thesis by simp
    next
      case (Dt x)
      with Some have "loop_continues fromiso r" "stamp_row fromiso r = r"
        by (simp_all add: loop_continues_def stamp_row_def)
      with Some Dt s ih show ?thesis by simp
    next
      case (Str x)
      show ?thesis
      proof (cases "fromiso x")
        case None
        with Some Str have "\<not> loop_continues fromiso r"
          by (simp add: loop_continues_def)
        with Some Str None show ?thesis by simp
      next
        case (Some t)
        with \<open>r ''timestamp'' = Some c\<close> Str
        have "loop_continues fromiso r" "stamp_row fromiso r = r(''timestamp_obj'' \<mapsto> Dt t)"
          by (simp_all add: loop_continues_def stamp_row_def)
        with \<open>r ''timestamp'' = Some c\<close> Str Some s ih show ?thesis by simp
      qed
    qed
  qed
qed

lemma stamp_row_frame: "k \<noteq> ''timestamp_obj'' \<Longrightarrow> stamp_row fromiso r k = r k"
  by (simp add: stamp_row_def split: option.splits cell.splits)

lemma stamp_rows_frame:
  "list_all2 (\<lambda>r r'. \<forall>k. k \<noteq> ''timestamp_obj'' \<longrightarrow> r' k = r k) data (fst (stamp_rows fromiso data))"
proof -
  have "list_all2 (\<lambda>r r'. \<forall>k. k \<noteq> ''timestamp_obj'' \<longrightarrow> r' k = r k)
          (takeWhile (loop_continues fromiso) data @ dropWhile (loop_continues fromiso) data)
          (map (stamp_row fromiso) (takeWhile (loop_continues fromiso) data)
             @ dropWhile (loop_continues fromiso) data)"
    by (rule list_all2_appendI) (simp_all add: list_all2_map2 list_all2_refl stamp_row_frame)
  then show ?thesis
    by (simp only: stamp_rows_rows takeWhile_dropWhile_id)
qed

lemma find_peak_window_rows:
  "snd (find_peak_window pf fromiso data metric window_minutes)
     = (if length data < 2 then data else fst (stamp_rows fromiso data))"
  by (simp add: find_peak_window_def split: prod.splits)

lemma map_err_rel:
  assumes "map_err f xs = Inr ys" and "\<And>x y. f x = Inr y \<Longrightarrow> R x y"
  shows "list_all2 R xs ys"
  using assms(1)
proof (induction xs arbitrary: ys)
  case Nil
  then show ?case by simp
next
  case (Cons x xs)
  then show ?case
    by (auto simp: ebind_def assms(2) split: sum.splits)
qed

lemma with_column_frame:
  assumes "with_column name ty e df = Inr out"
  shows "list_all2 (\<lambda>r r'. \<forall>k. k \<noteq> name \<longrightarrow> r' k = r k) (rows df) (rows out)"
proof -
  from assms obtain rs where
    m: "map_err (\<lambda>r. ebind (e r) (\<lambda>v. Inr (r(name \<mapsto> v)))) (rows df) = Inr rs"
    and o: "rows out = rs"
    by (auto simp: with_column_def ebind_def split: sum.splits)
  from m have "list_all2 (\<lambda>r r'. \<forall>k. k \<noteq> name \<longrightarrow> r' k = r k) (rows df) rs"
    by (rule map_err_rel) (auto simp: ebind_def split: sum.splits)
  with o show ?thesis by simp
qed

lemma calculate_derived_metrics_frame:
  assumes "calculate_derived_metrics df = Inr out"
  shows "list_all2 (\<lambda>r r'. \<forall>k. k \<noteq> ''ram_percent'' \<longrightarrow> k \<noteq> ''swap_pressure_percent'' \<longrightarrow> r' k = r k)
           (rows df) (rows out)"
proof -
  from assms obtain mid where
    a: "with_column ''ram_percent'' DFloat (percent_of_total ''memory_used'') df = Inr mid"
    and b: "with_column ''swap_pressure_percent'' DFloat (percent_of_total ''memory_swap_used'') mid = Inr out"
    by (auto simp: calculate_derived_metrics_def derived_column_def ebind_def
        split: sum.splits if_splits)
  from with_column_frame [OF a] with_column_frame [OF b]
  show ?thesis
    by (rule list_all2_trans [rotated]) simp
qed

lemma calculate_statistics_effect_eq:
  "calculate_statistics_effect pf data metric = (calculate_statistics pf data metric, data)"
  by (simp add: calculate_statistics_effect_def calculate_statistics_env_def
      calculate_statistics_def ebind_def Let_def split: sum.splits)

lemma sufficiency_steps_eq:
  "env_sufficiency (sufficiency_steps items e) = sufficiency_loop items (env_sufficiency e)
   \<and> env_stats (sufficiency_steps items e) = env_stats e"
proof (induction items arbitrary: e)
  case Nil
  show ?case by simp
next
  case (Cons item items)
  obtain m ms where item: "item = (m, ms)" by (cases item)
  show ?case
    by (cases "ms ''p75''"; cases "ms ''p95''"; cases "ms ''max''") (simp_all add: item Cons.IH fun_upd_def)
qed

lemma calculate_sufficiency_effect_eq:
  "calculate_sufficiency_effect stats_items = (calculate_sufficiency_metrics stats_items, stats_items)"
  by (simp add: calculate_sufficiency_effect_def calculate_sufficiency_metrics_def
      sufficiency_steps_eq Let_def)

lemma calculate_derived_effect_eq:
  "calculate_derived_effect df = (calculate_derived_metrics df, df)"
  by (simp add: calculate_derived_effect_def calculate_derived_env_def
      calculate_derived_metrics_def ebind_def Let_def split: sum.splits)

lemma prepare_heatmap_effect_eq:
  "prepare_heatmap_effect day_hour mean_agg df metric
     = (prepare_heatmap_data day_hour mean_agg df metric, df)"
  by (simp add: prepare_heatmap_effect_def prepare_heatmap_env_def prepare_heatmap_data_def
      ebind_def Let_def split: sum.splits)

text \<open>
  C10 as stated fails: \<^verbatim>\<open>find_peak_window\<close> stores the parsed timestamp in the rows
  it is given. The first row of the sample has no key \<^verbatim>\<open>timestamp_obj\<close> before the
  call and holds a datetime under it after the call.
\<close>

theorem find_peak_window_mutates_counterexample:
  "(late_peak_rows ! 0) ''timestamp_obj'' = None
   \<and> (snd (find_peak_window no_float sample_iso late_peak_rows ''cpu'' 15) ! 0) ''timestamp_obj''
       = Some (Dt 0)
   \<and> snd (find_peak_window no_float sample_iso late_peak_rows ''cpu'' 15) \<noteq> late_peak_rows"
proof -
  have a: "(late_peak_rows ! 0) ''timestamp_obj'' = None"
    by (simp add: late_peak_rows_def cpu_row_def)
  have b: "(snd (find_peak_window no_float sample_iso late_peak_rows ''cpu'' 15) ! 0) ''timestamp_obj''
       = Some (Dt 0)"
    by (simp add: find_peak_window_rows late_stamped) (simp add: late_peak_rows_def)
  from a b have "snd (find_peak_window no_float sample_iso late_peak_rows ''cpu'' 15) \<noteq> late_peak_rows"
    by auto
  with a b show ?thesis by simp
qed

text \<open>
  C10 (amended). The statistics engine, the heat-map aggregation, the sufficiency scorer
  and the derived-metric calculator leave their argument as it was: what they write to
  is a list, a dictionary or a frame of their own (the calculator returns a new frame
  with as many rows, which agrees with its input on every column but
  \<^verbatim>\<open>ram_percent\<close> and \<^verbatim>\<open>swap_pressure_percent\<close>). The peak-window finder
  changes the rows it is given. Called with fewer than two rows it changes nothing.
  Called with at least two rows it goes through them up to the first row that has no
  timestamp or whose timestamp is a string that does not parse, and stores the parsed
  timestamp under the key \<^verbatim>\<open>timestamp_obj\<close> in each of them whose timestamp is a
  string; that row and the rows after it stay as they were. In every case there are as
  many rows after the call, in the same order, and every field other than
  \<^verbatim>\<open>timestamp_obj\<close> of every row is as before.
\<close>

theorem analysis_frame:
  "calculate_statistics_effect pf data metric = (calculate_statistics pf data metric, data)
   \<and> prepare_heatmap_effect day_hour mean_agg df heat_metric
       = (prepare_heatmap_data day_hour mean_agg df heat_metric, df)
   \<and> calculate_sufficiency_effect stats_items
       = (calculate_sufficiency_metrics stats_items, stats_items)
   \<and> calculate_derived_effect df = (calculate_derived_metrics df, df)
   \<and> (calculate_derived_metrics df = Inr out \<longrightarrow>
          length (rows out) = length (rows df)
        \<and> (\<forall>i k. i < length (rows df) \<longrightarrow> k \<noteq> ''ram_percent'' \<longrightarrow> k \<noteq> ''swap_pressure_percent'' \<longrightarrow>
               (rows out ! i) k = (rows df ! i) k))
   \<and> (length data < 2 \<longrightarrow> snd (find_peak_window pf fromiso data metric window_minutes) = data)
   \<and> (2 \<le> length data \<longrightarrow>
          snd (find_peak_window pf fromiso data metric window_minutes)
            = map (stamp_row fromiso) (takeWhile (loop_continues fromiso) data)
              @ dropWhile (loop_continues fromiso) data)
   \<and> length (snd (find_peak_window pf fromiso data metric window_minutes)) = length data
   \<and> (\<forall>i k. i < length data \<longrightarrow> k \<noteq> ''timestamp_obj'' \<longrightarrow>
          (snd (find_peak_window pf fromiso data metric window_minutes) ! i) k = (data ! i) k)"
proof -
  have few: "length data < 2 \<longrightarrow> snd (find_peak_window pf fromiso data metric window_minutes) = data"
    by (simp add: find_peak_window_rows)
  have many: "2 \<le> length data \<longrightarrow>
          snd (find_peak_window pf fromiso data metric window_minutes)
            = map (stamp_row fromiso) (takeWhile (loop_continues fromiso) data)
              @ dropWhile (loop_continues fromiso) data"
    by (simp add: find_peak_window_rows stamp_rows_rows)
  have "list_all2 (\<lambda>r r'. \<forall>k. k \<noteq> ''timestamp_obj'' \<longrightarrow> r' k = r k) data
          (snd (find_peak_window pf fromiso data metric window_minutes))"
    unfolding find_peak_window_rows
    using stamp_rows_frame [of data fromiso]
    by (simp add: list_all2_refl)
  then have peak: "length (snd (find_peak_window pf fromiso data metric window_minutes)) = length data
   \<and> (\<forall>i k. i < length data \<longrightarrow> k \<noteq> ''timestamp_obj'' \<longrightarrow>
          (snd (find_peak_window pf fromiso data metric window_minutes) ! i) k = (data ! i) k)"
    by (simp add: list_all2_conv_all_nth)
  have derived: "calculate_derived_metrics df = Inr out \<longrightarrow>
          length (rows out) = length (rows df)
        \<and> (\<forall>i k. i < length (rows df) \<longrightarrow> k \<noteq> ''ram_percent'' \<longrightarrow> k \<noteq> ''swap_pressure_percent'' \<longrightarrow>
               (rows out ! i) k = (rows df ! i) k)"
    using calculate_derived_metrics_frame [of df out]
    by (simp add: list_all2_conv_all_nth)
  show ?thesis
    unfolding calculate_statistics_effect_eq prepare_heatmap_effect_eq
      calculate_sufficiency_effect_eq calculate_derived_effect_eq
    using few many peak derived by blast
qed

theorem analysis_frame_witness:
  "snd (find_peak_window no_float sample_iso late_peak_rows ''cpu'' 15)
     = [(cpu_row ''2024-01-01T00:00:00'' 1)(''timestamp_obj'' \<mapsto> Dt 0),
        (cpu_row ''2024-01-01T00:20:00'' 1)(''timestamp_obj'' \<mapsto> Dt 1200000000),
        (cpu_row ''2024-01-01T00:40:00'' 100)(''timestamp_obj'' \<mapsto> Dt 2400000000)]
   \<and> snd (find_peak_window no_float sample_iso broken_rows ''cpu'' 15)
     = [(cpu_row ''2024-01-01T00:00:00'' 1)(''timestamp_obj'' \<mapsto> Dt 0),
        cpu_row ''yesterday'' 2, cpu_row ''2024-01-01T00:40:00'' 3]
   \<and> snd (find_peak_window no_float sample_iso [cpu_row ''2024-01-01T00:00:00'' 1] ''cpu'' 15)
     = [cpu_row ''2024-01-01T00:00:00'' 1]
   \<and> (snd (find_peak_window no_float sample_iso late_peak_rows ''cpu'' 15) ! 2) ''cpu'' = Some (Num 100)
   \<and> snd (calculate_statistics_effect no_float sample_rows ''cpu'') = sample_rows
   \<and> snd (calculate_sufficiency_effect sample_stats) = sample_stats
   \<and> snd (calculate_derived_effect (memory_frame [memory_row 8 16 1])) = memory_frame [memory_row 8 16 1]
   \<and> snd (prepare_heatmap_effect (\<lambda>t. (6, 12)) (\<lambda>vs. None) (memory_frame [memory_row 8 16 1]) ''memory_used'')
       = memory_frame [memory_row 8 16 1]
   \<and> (\<exists>out. calculate_derived_metrics (memory_frame [memory_row 8 16 1]) = Inr out
          \<and> length (rows out) = 1
          \<and> (rows out ! 0) ''memory_used'' = Some (Float 8))"
proof -
  let ?df = "memory_frame [memory_row 8 16 1]"
  let ?one = "[cpu_row ''2024-01-01T00:00:00'' 1]"
  have c: "numeric_column ?df ''memory_used''" "numeric_column ?df ''memory_total''"
    "numeric_column ?df ''memory_swap_used''"
    by (simp_all add: numeric_column_def memory_frame_def memory_row_def is_number_type_def)
  from calculate_derived_metrics_numeric [OF c] obtain out where
    o: "calculate_derived_metrics ?df = Inr out"
    by blast
  have len: "length late_peak_rows = 3" "2 \<le> length late_peak_rows"
    and v: "(late_peak_rows ! 2) ''cpu'' = Some (Num 100)"
    and lb: "2 \<le> length broken_rows" and l1: "length ?one < 2"
    by (simp_all add: late_peak_rows_def broken_rows_def cpu_row_def)
  have l: "length (rows ?df) = 1" and u: "(rows ?df ! 0) ''memory_used'' = Some (Float 8)"
    by (simp_all add: memory_frame_def memory_row_def)
  have sl: "map (stamp_row sample_iso) (takeWhile (loop_continues sample_iso) late_peak_rows)
              @ dropWhile (loop_continues sample_iso) late_peak_rows
     = [(cpu_row ''2024-01-01T00:00:00'' 1)(''timestamp_obj'' \<mapsto> Dt 0),
        (cpu_row ''2024-01-01T00:20:00'' 1)(''timestamp_obj'' \<mapsto> Dt 1200000000),
        (cpu_row ''2024-01-01T00:40:00'' 100)(''timestamp_obj'' \<mapsto> Dt 2400000000)]"
    by (simp add: late_peak_rows_def cpu_row_def stamp_row_def loop_continues_def sample_iso_def)
  have sb: "map (stamp_row sample_iso) (takeWhile (loop_continues sample_iso) broken_rows)
              @ dropWhile (loop_continues sample_iso) broken_rows
     = [(cpu_row ''2024-01-01T00:00:00'' 1)(''timestamp_obj'' \<mapsto> Dt 0),
        cpu_row ''yesterday'' 2, cpu_row ''2024-01-01T00:40:00'' 3]"
    by (simp add: broken_rows_def cpu_row_def stamp_row_def loop_continues_def sample_iso_def)
  note late = analysis_frame [of no_float late_peak_rows "''cpu''" "\<lambda>t. (6, 12)" "\<lambda>vs. None" ?df
      "''memory_used''" sample_stats out sample_iso 15]
  note broken = analysis_frame [of no_float broken_rows "''cpu''" "\<lambda>t. (6, 12)" "\<lambda>vs. None" ?df
      "''memory_used''" sample_stats out sample_iso 15]
  note single = analysis_frame [of no_float ?one "''cpu''" "\<lambda>t. (6, 12)" "\<lambda>vs. None" ?df
      "''memory_used''" sample_stats out sample_iso 15]
  note sample = analysis_frame [of no_float sample_rows "''cpu''" "\<lambda>t. (6, 12)" "\<lambda>vs. None" ?df
      "''memory_used''" sample_stats out sample_iso 15]
  from late len have a1: "snd (find_peak_window no_float sample_iso late_peak_rows ''cpu'' 15)
     = [(cpu_row ''2024-01-01T00:00:00'' 1)(''timestamp_obj'' \<mapsto> Dt 0),
        (cpu_row ''2024-01-01T00:20:00'' 1)(''timestamp_obj'' \<mapsto> Dt 1200000000),
        (cpu_row ''2024-01-01T00:40:00'' 100)(''timestamp_obj'' \<mapsto> Dt 2400000000)]"
    by (simp only: sl)
  from broken lb have a2: "snd (find_peak_window no_float sample_iso broken_rows ''cpu'' 15)
     = [(cpu_row ''2024-01-01T00:00:00'' 1)(''timestamp_obj'' \<mapsto> Dt 0),
        cpu_row ''yesterday'' 2, cpu_row ''2024-01-01T00:40:00'' 3]"
    by (simp only: sb)
  from single l1 have a3: "snd (find_peak_window no_float sample_iso ?one ''cpu'' 15) = ?one"
    by blast
  from late have fr: "\<forall>i k. i < length late_peak_rows \<longrightarrow> k \<noteq> ''timestamp_obj'' \<longrightarrow>
      (snd (find_peak_window no_float sample_iso late_peak_rows ''cpu'' 15) ! i) k = (late_peak_rows ! i) k"
    by blast
  have a4: "(snd (find_peak_window no_float sample_iso late_peak_rows ''cpu'' 15) ! 2) ''cpu'' = Some (Num 100)"
    using fr [rule_format, of 2 "''cpu''"] len(1) v by simp
  from sample have a5: "snd (calculate_statistics_effect no_float sample_rows ''cpu'') = sample_rows"
    and a6: "snd (calculate_sufficiency_effect sample_stats) = sample_stats"
    and a7: "snd (calculate_derived_effect ?df) = ?df"
    and a8: "snd (prepare_heatmap_effect (\<lambda>t. (6, 12)) (\<lambda>vs. None) ?df ''memory_used'') = ?df"
    by simp_all
  from sample o l u have a9: "length (rows out) = 1 \<and> (rows out ! 0) ''memory_used'' = Some (Float 8)"
    by simp
  from a1 a2 a3 a4 a5 a6 a7 a8 a9 o show ?thesis by blast
qed

section \<open>Claims about the parser\<close>





















end
